theory Spec2Isabelle
  imports Main
begin

section \<open>Values of the host language\<close>

text \<open>
  Numbers are the integral values and the not-a-number value; every relational comparison
  with \<open>NaN\<close> is false.  An integer stands for a double only when its magnitude is below
  \<open>2 ^ 53\<close>; statements about printed numbers carry that bound.
\<close>

datatype jsnum = Num int | NaN

fun js_lt :: "jsnum \<Rightarrow> jsnum \<Rightarrow> bool" where
  "js_lt (Num a) (Num b) = (a < b)"
| "js_lt _ _ = False"

fun js_gt :: "jsnum \<Rightarrow> jsnum \<Rightarrow> bool" where
  "js_gt (Num a) (Num b) = (a > b)"
| "js_gt _ _ = False"

fun js_ge :: "jsnum \<Rightarrow> jsnum \<Rightarrow> bool" where
  "js_ge (Num a) (Num b) = (a \<ge> b)"
| "js_ge _ _ = False"

fun js_sub :: "jsnum \<Rightarrow> jsnum \<Rightarrow> jsnum" where
  "js_sub (Num a) (Num b) = Num (a - b)"
| "js_sub _ _ = NaN"

fun js_min :: "jsnum \<Rightarrow> jsnum \<Rightarrow> jsnum" where
  "js_min (Num a) (Num b) = Num (min a b)"
| "js_min _ _ = NaN"

text \<open>
  The values a property read can give.  \<open>JObject s\<close> is an object or a function, which is
  truthy and which \<open>String\<close> turns into the text \<open>s\<close>.
\<close>

datatype jsval = JNum jsnum | JBool bool | JStr string | JUndefined | JObject string

fun truthy :: "jsval \<Rightarrow> bool" where
  "truthy (JNum (Num n)) = (n \<noteq> 0)"
| "truthy (JNum NaN) = False"
| "truthy (JBool b) = b"
| "truthy (JStr s) = (s \<noteq> [])"
| "truthy JUndefined = False"
| "truthy (JObject s) = True"

definition digit_char :: "nat \<Rightarrow> char" where
  "digit_char d = char_of (48 + d)"

fun decimal :: "nat \<Rightarrow> string" where
  "decimal n = (if n < 10 then [digit_char n] else decimal (n div 10) @ [digit_char (n mod 10)])"

declare decimal.simps [simp del]

definition int_toString :: "int \<Rightarrow> string" where
  "int_toString i = (if i < 0 then CHR ''-'' # decimal (nat (- i)) else decimal (nat i))"

text \<open>
  \<open>Number.prototype.toString\<close> on the integral values: the decimal digits.  This is what
  JavaScript prints for a double below \<open>2 ^ 53\<close> in magnitude; beyond that a double need not
  be the integer written, and from \<open>10 ^ 21\<close> on JavaScript prints an exponent.
\<close>

fun num_toString :: "jsnum \<Rightarrow> string" where
  "num_toString (Num i) = int_toString i"
| "num_toString NaN = ''NaN''"

fun toString :: "jsval \<Rightarrow> string" where
  "toString (JNum n) = num_toString n"
| "toString (JBool b) = (if b then ''true'' else ''false'')"
| "toString (JStr s) = s"
| "toString JUndefined = ''undefined''"
| "toString (JObject s) = s"

text \<open>
  A configured maximum is a number, as in the defaults, or the string that the options page
  saved from its number input (\<open>input.value\<close>), kept together with the number that the
  comparisons and the subtraction read from that string.
\<close>

datatype maximum = Number jsnum | Text string jsnum

fun number_of :: "maximum \<Rightarrow> jsnum" where
  "number_of (Number n) = n"
| "number_of (Text s n) = n"

fun maximum_value :: "maximum \<Rightarrow> jsval" where
  "maximum_value (Number n) = JNum n"
| "maximum_value (Text s n) = JStr s"

datatype error = Rejected | TypeError

section \<open>Configuration, session state and the browser\<close>

record options =
  maxTotal :: maximum
  maxWindow :: maximum
  exceedTabNewWindow :: bool
  displayAlert :: bool
  countPinnedTabs :: bool
  displayBadge :: bool
  alertMessage :: string

definition DEFAULT_OPTIONS :: options where
  "DEFAULT_OPTIONS = \<lparr> maxTotal = Number (Num 50), maxWindow = Number (Num 20), exceedTabNewWindow = False,
     displayAlert = True, countPinnedTabs = False, displayBadge = False,
     alertMessage = ''You decided not to open more than {maxPlace} tabs in {place}'' \<rparr>"

text \<open>
  Property read \<open>options[key]\<close>.  The configuration is a plain object: a key that is not
  its own is looked up in \<open>Object.prototype\<close>, given here as the list of the names it
  defines and their values, and reads as undefined when that has no such name either.
\<close>

definition own_property :: "options \<Rightarrow> string \<Rightarrow> jsval option" where
  "own_property opts k =
    (if k = ''maxTotal'' then Some (maximum_value (maxTotal opts))
     else if k = ''maxWindow'' then Some (maximum_value (maxWindow opts))
     else if k = ''exceedTabNewWindow'' then Some (JBool (exceedTabNewWindow opts))
     else if k = ''displayAlert'' then Some (JBool (displayAlert opts))
     else if k = ''countPinnedTabs'' then Some (JBool (countPinnedTabs opts))
     else if k = ''displayBadge'' then Some (JBool (displayBadge opts))
     else if k = ''alertMessage'' then Some (JStr (alertMessage opts))
     else None)"

definition option_get :: "(string \<times> jsval) list \<Rightarrow> options \<Rightarrow> string \<Rightarrow> jsval" where
  "option_get proto opts k =
    (case own_property opts k of
       Some v \<Rightarrow> v
     | None \<Rightarrow> (case map_of proto k of Some v \<Rightarrow> v | None \<Rightarrow> JUndefined))"

text \<open>The synchronised store: the snapshot written at install time and the values saved per key.\<close>

record sync_store =
  defaultOptions :: "options option"
  saved_maxTotal :: "maximum option"
  saved_maxWindow :: "maximum option"
  saved_exceedTabNewWindow :: "bool option"
  saved_displayAlert :: "bool option"
  saved_countPinnedTabs :: "bool option"
  saved_displayBadge :: "bool option"
  saved_alertMessage :: "string option"

text \<open>The session store holds a value for a key or lacks the key; an update names some keys.\<close>

record session_store =
  stored_tabCount :: "int option"
  stored_previousTabCount :: "int option"
  stored_amountOfTabsCreated :: "int option"
  stored_passes :: "int option"

record session_state =
  tabCount :: int
  previousTabCount :: int
  amountOfTabsCreated :: int
  passes :: int

record tab =
  tab_id :: nat
  tab_windowId :: nat
  tab_pinned :: bool

record query_params =
  q_currentWindow :: "bool option"
  q_pinned :: "bool option"

text \<open>
  The browser as the service worker sees it.  Each call of a \<open>chrome\<close> function takes the
  head of \<open>faults\<close>: \<open>True\<close> makes that call reject.  An empty list means no call rejects.
  \<open>objectPrototype\<close> lists the properties that the engine's \<open>Object.prototype\<close> defines.
\<close>

record world =
  tabs :: "tab list"
  focusedWindow :: nat
  session :: session_store
  sync :: sync_store
  badgeText :: string
  notifications :: "string list"
  console :: "string list"
  faults :: "bool list"
  objectPrototype :: "(string \<times> jsval) list"

definition take_fault :: "world \<Rightarrow> bool \<times> world" where
  "take_fault w = (case faults w of [] \<Rightarrow> (False, w) | b # bs \<Rightarrow> (b, w\<lparr>faults := bs\<rparr>))"

definition console_error :: "string \<Rightarrow> world \<Rightarrow> world" where
  "console_error msg w = w\<lparr>console := console w @ [msg]\<rparr>"

subsection \<open>The \<open>chrome\<close> functions\<close>

definition with_defaults :: "session_state \<Rightarrow> session_store \<Rightarrow> session_state" where
  "with_defaults d s =
    \<lparr> tabCount = (case stored_tabCount s of Some v \<Rightarrow> v | None \<Rightarrow> tabCount d),
      previousTabCount = (case stored_previousTabCount s of Some v \<Rightarrow> v | None \<Rightarrow> previousTabCount d),
      amountOfTabsCreated =
        (case stored_amountOfTabsCreated s of Some v \<Rightarrow> v | None \<Rightarrow> amountOfTabsCreated d),
      passes = (case stored_passes s of Some v \<Rightarrow> v | None \<Rightarrow> passes d) \<rparr>"

definition chrome_storage_session_get :: "session_state \<Rightarrow> world \<Rightarrow> (error + session_state) \<times> world" where
  "chrome_storage_session_get d w =
    (case take_fault w of
       (True, w') \<Rightarrow> (Inl Rejected, w')
     | (False, w') \<Rightarrow> (Inr (with_defaults d (session w')), w'))"

definition merge_session :: "session_store \<Rightarrow> session_store \<Rightarrow> session_store" where
  "merge_session u s =
    \<lparr> stored_tabCount = (case stored_tabCount u of Some v \<Rightarrow> Some v | None \<Rightarrow> stored_tabCount s),
      stored_previousTabCount =
        (case stored_previousTabCount u of Some v \<Rightarrow> Some v | None \<Rightarrow> stored_previousTabCount s),
      stored_amountOfTabsCreated =
        (case stored_amountOfTabsCreated u of Some v \<Rightarrow> Some v | None \<Rightarrow> stored_amountOfTabsCreated s),
      stored_passes = (case stored_passes u of Some v \<Rightarrow> Some v | None \<Rightarrow> stored_passes s) \<rparr>"

definition chrome_storage_session_set :: "session_store \<Rightarrow> world \<Rightarrow> (error + unit) \<times> world" where
  "chrome_storage_session_set u w =
    (case take_fault w of
       (True, w') \<Rightarrow> (Inl Rejected, w')
     | (False, w') \<Rightarrow> (Inr (), w'\<lparr>session := merge_session u (session w')\<rparr>))"

definition chrome_storage_sync_get_defaultOptions :: "world \<Rightarrow> (error + options option) \<times> world" where
  "chrome_storage_sync_get_defaultOptions w =
    (case take_fault w of
       (True, w') \<Rightarrow> (Inl Rejected, w')
     | (False, w') \<Rightarrow> (Inr (defaultOptions (sync w')), w'))"

definition merge_options :: "options \<Rightarrow> sync_store \<Rightarrow> options" where
  "merge_options d s =
    \<lparr> maxTotal = (case saved_maxTotal s of Some v \<Rightarrow> v | None \<Rightarrow> maxTotal d),
      maxWindow = (case saved_maxWindow s of Some v \<Rightarrow> v | None \<Rightarrow> maxWindow d),
      exceedTabNewWindow =
        (case saved_exceedTabNewWindow s of Some v \<Rightarrow> v | None \<Rightarrow> exceedTabNewWindow d),
      displayAlert = (case saved_displayAlert s of Some v \<Rightarrow> v | None \<Rightarrow> displayAlert d),
      countPinnedTabs = (case saved_countPinnedTabs s of Some v \<Rightarrow> v | None \<Rightarrow> countPinnedTabs d),
      displayBadge = (case saved_displayBadge s of Some v \<Rightarrow> v | None \<Rightarrow> displayBadge d),
      alertMessage = (case saved_alertMessage s of Some v \<Rightarrow> v | None \<Rightarrow> alertMessage d) \<rparr>"

definition chrome_storage_sync_get :: "options \<Rightarrow> world \<Rightarrow> (error + options) \<times> world" where
  "chrome_storage_sync_get d w =
    (case take_fault w of
       (True, w') \<Rightarrow> (Inl Rejected, w')
     | (False, w') \<Rightarrow> (Inr (merge_options d (sync w')), w'))"

definition chrome_storage_sync_set_defaultOptions :: "options \<Rightarrow> world \<Rightarrow> (error + unit) \<times> world" where
  "chrome_storage_sync_set_defaultOptions d w =
    (case take_fault w of
       (True, w') \<Rightarrow> (Inl Rejected, w')
     | (False, w') \<Rightarrow> (Inr (), w'\<lparr>sync := (sync w')\<lparr>defaultOptions := Some d\<rparr>\<rparr>))"

definition tab_matches :: "query_params \<Rightarrow> world \<Rightarrow> tab \<Rightarrow> bool" where
  "tab_matches p w t =
    ((case q_currentWindow p of Some b \<Rightarrow> (tab_windowId t = focusedWindow w) = b | None \<Rightarrow> True) \<and>
     (case q_pinned p of Some b \<Rightarrow> tab_pinned t = b | None \<Rightarrow> True))"

definition chrome_tabs_query :: "query_params \<Rightarrow> world \<Rightarrow> (error + tab list) \<times> world" where
  "chrome_tabs_query p w =
    (case take_fault w of
       (True, w') \<Rightarrow> (Inl Rejected, w')
     | (False, w') \<Rightarrow> (Inr (filter (tab_matches p w') (tabs w')), w'))"

text \<open>Removing a tab that does not exist rejects.\<close>

definition chrome_tabs_remove :: "nat \<Rightarrow> world \<Rightarrow> (error + unit) \<times> world" where
  "chrome_tabs_remove i w =
    (case take_fault w of
       (True, w') \<Rightarrow> (Inl Rejected, w')
     | (False, w') \<Rightarrow>
         if i \<in> tab_id ` set (tabs w')
         then (Inr (), w'\<lparr>tabs := filter (\<lambda>t. tab_id t \<noteq> i) (tabs w')\<rparr>)
         else (Inl Rejected, w'))"

definition fresh_window :: "world \<Rightarrow> nat" where
  "fresh_window w = Suc (fold max (map tab_windowId (tabs w)) (focusedWindow w))"

text \<open>\<open>chrome.windows.create({tabId, focused: true})\<close> moves the tab into a new, focused window.\<close>

definition chrome_windows_create :: "nat \<Rightarrow> world \<Rightarrow> (error + unit) \<times> world" where
  "chrome_windows_create i w =
    (case take_fault w of
       (True, w') \<Rightarrow> (Inl Rejected, w')
     | (False, w') \<Rightarrow>
         if i \<in> tab_id ` set (tabs w')
         then (Inr (), w'\<lparr>tabs := map (\<lambda>t. if tab_id t = i then t\<lparr>tab_windowId := fresh_window w'\<rparr> else t) (tabs w'),
                           focusedWindow := fresh_window w'\<rparr>)
         else (Inl Rejected, w'))"

definition chrome_notifications_create :: "string \<Rightarrow> world \<Rightarrow> (error + unit) \<times> world" where
  "chrome_notifications_create msg w =
    (case take_fault w of
       (True, w') \<Rightarrow> (Inl Rejected, w')
     | (False, w') \<Rightarrow> (Inr (), w'\<lparr>notifications := notifications w' @ [msg]\<rparr>))"

definition chrome_action_setBadgeText :: "string \<Rightarrow> world \<Rightarrow> (error + unit) \<times> world" where
  "chrome_action_setBadgeText txt w =
    (case take_fault w of
       (True, w') \<Rightarrow> (Inl Rejected, w')
     | (False, w') \<Rightarrow> (Inr (), w'\<lparr>badgeText := txt\<rparr>))"

section \<open>The service worker\<close>

subsection \<open>State management\<close>

definition SESSION_DEFAULTS :: session_state where
  "SESSION_DEFAULTS = \<lparr> tabCount = -1, previousTabCount = -1, amountOfTabsCreated = -1, passes = 0 \<rparr>"

definition getSessionState :: "world \<Rightarrow> session_state \<times> world" where
  "getSessionState w =
    (case chrome_storage_session_get SESSION_DEFAULTS w of
       (Inr state, w') \<Rightarrow> (state, w')
     | (Inl e, w') \<Rightarrow> (SESSION_DEFAULTS, console_error ''Failed to get session state:'' w'))"

definition updateSessionState :: "session_store \<Rightarrow> world \<Rightarrow> world" where
  "updateSessionState updates w =
    (case chrome_storage_session_set updates w of
       (Inr u, w') \<Rightarrow> w'
     | (Inl e, w') \<Rightarrow> console_error ''Failed to update session state:'' w')"

definition no_updates :: session_store where
  "no_updates = \<lparr> stored_tabCount = None, stored_previousTabCount = None,
     stored_amountOfTabsCreated = None, stored_passes = None \<rparr>"

subsection \<open>Options management\<close>

definition getOptions :: "world \<Rightarrow> options \<times> world" where
  "getOptions w =
    (case chrome_storage_sync_get_defaultOptions w of
       (Inl e, w1) \<Rightarrow> (DEFAULT_OPTIONS, console_error ''Failed to get options:'' w1)
     | (Inr defaults, w1) \<Rightarrow>
         (case chrome_storage_sync_get (case defaults of Some d \<Rightarrow> d | None \<Rightarrow> DEFAULT_OPTIONS) w1 of
            (Inl e, w2) \<Rightarrow> (DEFAULT_OPTIONS, console_error ''Failed to get options:'' w2)
          | (Inr opts, w2) \<Rightarrow> (opts, w2)))"

subsection \<open>Tab query utilities\<close>

definition tabQuery :: "options \<Rightarrow> query_params \<Rightarrow> world \<Rightarrow> (error + tab list) \<times> world" where
  "tabQuery opts params w =
    chrome_tabs_query (if \<not> countPinnedTabs opts then params\<lparr>q_pinned := Some False\<rparr> else params) w"

definition in_current_window :: query_params where
  "in_current_window = \<lparr> q_currentWindow = Some True, q_pinned = None \<rparr>"

definition no_params :: query_params where
  "no_params = \<lparr> q_currentWindow = None, q_pinned = None \<rparr>"

definition windowRemaining :: "options \<Rightarrow> world \<Rightarrow> (error + jsnum) \<times> world" where
  "windowRemaining opts w =
    (case tabQuery opts in_current_window w of
       (Inl e, w') \<Rightarrow> (Inl e, w')
     | (Inr ts, w') \<Rightarrow> (Inr (js_sub (number_of (maxWindow opts)) (Num (int (length ts)))), w'))"

definition totalRemaining :: "options \<Rightarrow> world \<Rightarrow> (error + jsnum) \<times> world" where
  "totalRemaining opts w =
    (case tabQuery opts no_params w of
       (Inl e, w') \<Rightarrow> (Inl e, w')
     | (Inr ts, w') \<Rightarrow> (Inr (js_sub (number_of (maxTotal opts)) (Num (int (length ts)))), w'))"

text \<open>
  \<open>Promise.all\<close> of two calls: both are started, the first one first, and the result is
  the pair of their values, or a rejection when either rejects.
\<close>

definition promise_all :: "(world \<Rightarrow> (error + 'a) \<times> world) \<Rightarrow> (world \<Rightarrow> (error + 'b) \<times> world) \<Rightarrow>
    world \<Rightarrow> (error + 'a \<times> 'b) \<times> world" where
  "promise_all f g w =
    (case f w of (r1, w1) \<Rightarrow>
      (case g w1 of (r2, w2) \<Rightarrow>
        (case r1 of
           Inl e \<Rightarrow> (Inl e, w2)
         | Inr a \<Rightarrow> (case r2 of Inl e \<Rightarrow> (Inl e, w2) | Inr b \<Rightarrow> (Inr (a, b), w2)))))"

subsection \<open>Badge management\<close>

definition updateBadge :: "options \<Rightarrow> world \<Rightarrow> world" where
  "updateBadge opts w =
    (case (if \<not> displayBadge opts then chrome_action_setBadgeText [] w
           else (case promise_all (windowRemaining opts) (totalRemaining opts) w of
                   (Inl e, w1) \<Rightarrow> (Inl e, w1)
                 | (Inr (rw, rt), w1) \<Rightarrow> chrome_action_setBadgeText (num_toString (js_min rw rt)) w1)) of
       (Inr u, w') \<Rightarrow> w'
     | (Inl e, w') \<Rightarrow> console_error ''Failed to update badge:'' w')"

subsection \<open>Tab count tracking\<close>

definition updateTabCount :: "world \<Rightarrow> int \<times> world" where
  "updateTabCount w =
    (case chrome_tabs_query no_params w of
       (Inl e, w1) \<Rightarrow> (0, console_error ''Failed to update tab count:'' w1)
     | (Inr ts, w1) \<Rightarrow>
         (case getSessionState w1 of (state, w2) \<Rightarrow>
            if int (length ts) = tabCount state then (amountOfTabsCreated state, w2)
            else
              (let previous = tabCount state;
                   current = int (length ts);
                   created = (if previous \<noteq> -1 then current - previous else 0)
               in (created,
                   updateSessionState
                     \<lparr> stored_tabCount = Some current, stored_previousTabCount = Some previous,
                       stored_amountOfTabsCreated = Some created, stored_passes = None \<rparr> w2))))"

subsection \<open>Tab limit detection\<close>

definition detectTooManyTabsInWindow :: "options \<Rightarrow> world \<Rightarrow> (error + string option) \<times> world" where
  "detectTooManyTabsInWindow opts w =
    (case tabQuery opts in_current_window w of
       (Inl e, w') \<Rightarrow> (Inl e, w')
     | (Inr ts, w') \<Rightarrow>
         if js_lt (number_of (maxWindow opts)) (Num 1) then (Inr None, w')
         else if js_gt (Num (int (length ts))) (number_of (maxWindow opts)) then (Inr (Some ''window''), w')
         else (Inr None, w'))"

definition detectTooManyTabsInTotal :: "options \<Rightarrow> world \<Rightarrow> (error + string option) \<times> world" where
  "detectTooManyTabsInTotal opts w =
    (case tabQuery opts no_params w of
       (Inl e, w') \<Rightarrow> (Inl e, w')
     | (Inr ts, w') \<Rightarrow>
         if js_lt (number_of (maxTotal opts)) (Num 1) then (Inr None, w')
         else if js_gt (Num (int (length ts))) (number_of (maxTotal opts)) then (Inr (Some ''total''), w')
         else (Inr None, w'))"

text \<open>A tag is falsy when it is \<open>null\<close> or the empty string.\<close>

definition falsy :: "string option \<Rightarrow> bool" where
  "falsy p = (case p of None \<Rightarrow> True | Some s \<Rightarrow> s = [])"

definition detectTabLimitExceeded :: "options \<Rightarrow> world \<Rightarrow> (error + string option) \<times> world" where
  "detectTabLimitExceeded opts w =
    (case promise_all (detectTooManyTabsInWindow opts) (detectTooManyTabsInTotal opts) w of
       (Inl e, w') \<Rightarrow> (Inl e, w')
     | (Inr (windowResult, totalResult), w') \<Rightarrow>
         (Inr (if falsy windowResult then totalResult else windowResult), w'))"

subsection \<open>Notification\<close>

text \<open>
  Strings are lists of code units below 256.  \<open>toUpperCase\<close> is modelled on the ASCII
  letters, which covers the two tags the detector produces.
\<close>

definition toUpperCase :: "char \<Rightarrow> char" where
  "toUpperCase c = (let n = (of_char c :: nat) in if 97 \<le> n \<and> n \<le> 122 then char_of (n - 32) else c)"

definition capitalizeFirstLetter :: "string \<Rightarrow> error + string" where
  "capitalizeFirstLetter s = (case s of [] \<Rightarrow> Inl TypeError | c # cs \<Rightarrow> Inr (toUpperCase c # cs))"

definition replacer :: "(string \<times> jsval) list \<Rightarrow> options \<Rightarrow> string \<Rightarrow> string \<Rightarrow> error + string" where
  "replacer proto opts place p1 =
    (if p1 = ''place'' \<or> p1 = ''which'' then Inr (if place = ''window'' then ''one window'' else ''total'')
     else if p1 = ''maxPlace'' \<or> p1 = ''maxWhich'' then
       (case capitalizeFirstLetter place of
          Inl e \<Rightarrow> Inl e
        | Inr cap \<Rightarrow> Inr (toString (option_get proto opts (''max'' @ cap))))
     else Inr (if truthy (option_get proto opts p1) then toString (option_get proto opts p1) else ''?''))"

text \<open>
  The pattern \<open>/{\s*(\S+)\s*}/g\<close>.  \<open>js_space\<close> is the class \<open>\s\<close> on code units below 256.
  \<open>greedy P s\<close> lists the ways a greedy \<open>P*\<close> can split \<open>s\<close>, longest first, which is the order
  in which a backtracking matcher tries them; \<open>regex_exec\<close> returns the capture group and the
  text after the first successful attempt at the head of the string.
\<close>

definition js_space :: "char \<Rightarrow> bool" where
  "js_space c = ((of_char c :: nat) \<in> {9, 10, 11, 12, 13, 32, 160})"

fun greedy :: "(char \<Rightarrow> bool) \<Rightarrow> string \<Rightarrow> (string \<times> string) list" where
  "greedy P [] = [([], [])]"
| "greedy P (c # cs) =
     (if P c then map (\<lambda>(a, b). (c # a, b)) (greedy P cs) @ [([], c # cs)] else [([], c # cs)])"

definition closing :: "string \<Rightarrow> string list" where
  "closing s = (case s of [] \<Rightarrow> [] | c # cs \<Rightarrow> if c = CHR ''}'' then [cs] else [])"

definition attempts :: "string \<Rightarrow> (string \<times> string) list" where
  "attempts r0 =
    [(p1, r4). (w1, r1) \<leftarrow> greedy js_space r0,
               (p1, r2) \<leftarrow> greedy (\<lambda>c. \<not> js_space c) r1, p1 \<noteq> [],
               (w2, r3) \<leftarrow> greedy js_space r2,
               r4 \<leftarrow> closing r3]"

definition regex_exec :: "string \<Rightarrow> (string \<times> string) option" where
  "regex_exec s =
    (case s of
       [] \<Rightarrow> None
     | c # r0 \<Rightarrow> if c = CHR ''{'' then (case attempts r0 of [] \<Rightarrow> None | m # ms \<Rightarrow> Some m) else None)"

lemma greedy_append: "(a, b) \<in> set (greedy P s) \<Longrightarrow> a @ b = s"
  by (induction s arbitrary: a b) (auto split: if_splits)

lemma attempts_shorter: "(p1, r) \<in> set (attempts s) \<Longrightarrow> length r < length s"
  by (auto simp: attempts_def closing_def split: list.splits if_splits dest!: greedy_append)

lemma regex_exec_shorter: "regex_exec s = Some (p1, r) \<Longrightarrow> length r < length s"
proof -
  assume h: "regex_exec s = Some (p1, r)"
  then obtain r0 ms where "s = CHR ''{'' # r0" "attempts r0 = (p1, r) # ms"
    by (auto simp: regex_exec_def split: list.splits if_splits)
  then have "length r < length r0"
    using attempts_shorter [of p1 r r0] by simp
  then show ?thesis using \<open>s = CHR ''{'' # r0\<close> by simp
qed

text \<open>\<open>String.prototype.replace\<close> with the global pattern and a replacer function.\<close>

function string_replace :: "(string \<Rightarrow> error + string) \<Rightarrow> string \<Rightarrow> error + string" where
  "string_replace f [] = Inr []"
| "string_replace f (c # cs) =
     (case regex_exec (c # cs) of
        None \<Rightarrow> (case string_replace f cs of Inl e \<Rightarrow> Inl e | Inr out \<Rightarrow> Inr (c # out))
      | Some (p1, after) \<Rightarrow>
          (case f p1 of
             Inl e \<Rightarrow> Inl e
           | Inr x \<Rightarrow> (case string_replace f after of Inl e \<Rightarrow> Inl e | Inr out \<Rightarrow> Inr (x @ out))))"
  by pat_completeness auto
termination
  by (relation "measure (\<lambda>(f, s). length s)") (auto dest: regex_exec_shorter)

definition displayAlert_fn :: "options \<Rightarrow> string \<Rightarrow> world \<Rightarrow> (error + jsval) \<times> world" where
  "displayAlert_fn opts place w =
    (if \<not> displayAlert opts then (Inr (JBool False), w)
     else
       (case string_replace (replacer (objectPrototype w) opts place) (alertMessage opts) of
          Inl e \<Rightarrow> (Inl e, w)
        | Inr renderedMessage \<Rightarrow>
            (case chrome_notifications_create renderedMessage w of
               (Inr u, w') \<Rightarrow> (Inr JUndefined, w')
             | (Inl e, w') \<Rightarrow> (Inr JUndefined, console_error ''Failed to display notification:'' w'))))"

subsection \<open>Tab exceed handling\<close>

definition handleExceedTabs :: "tab \<Rightarrow> options \<Rightarrow> string \<Rightarrow> world \<Rightarrow> world" where
  "handleExceedTabs t opts place w =
    (case (if exceedTabNewWindow opts \<and> place = ''window'' then chrome_windows_create (tab_id t) w
           else chrome_tabs_remove (tab_id t) w) of
       (Inr u, w') \<Rightarrow> w'
     | (Inl e, w') \<Rightarrow> console_error ''Failed to handle exceed tabs:'' w')"

subsection \<open>Event handlers\<close>

text \<open>
  Nothing that \<open>handleUpdate\<close> calls can throw, since each callee catches its own errors, so
  the handler's own \<open>catch\<close> is never entered.
\<close>

definition handleUpdate :: "world \<Rightarrow> world" where
  "handleUpdate w =
    (case updateTabCount w of (created, w1) \<Rightarrow>
      (case getOptions w1 of (opts, w2) \<Rightarrow> updateBadge opts w2))"

definition handleInstalled :: "world \<Rightarrow> world" where
  "handleInstalled w =
    (case chrome_storage_sync_set_defaultOptions DEFAULT_OPTIONS w of
       (Inr u, w') \<Rightarrow> handleUpdate w'
     | (Inl e, w') \<Rightarrow> console_error ''Failed to handle install:'' w')"

text \<open>The body of the \<open>try\<close> block of \<open>handleTabCreated\<close>; \<open>Inl\<close> is an exception that reaches its \<open>catch\<close>.\<close>

definition passes_update :: "int \<Rightarrow> session_store" where
  "passes_update p = no_updates\<lparr>stored_passes := Some p\<rparr>"

definition handleTabCreated_try :: "tab \<Rightarrow> world \<Rightarrow> (error + unit) \<times> world" where
  "handleTabCreated_try t w =
    (case getOptions w of (opts, w1) \<Rightarrow>
      (case detectTabLimitExceeded opts w1 of
         (Inl e, w2) \<Rightarrow> (Inl e, w2)
       | (Inr None, w2) \<Rightarrow> (Inr (), handleUpdate w2)
       | (Inr (Some place), w2) \<Rightarrow>
           if place = [] then (Inr (), handleUpdate w2)
           else
             (case updateTabCount w2 of (created, w3) \<Rightarrow>
               (case getSessionState w3 of (state, w4) \<Rightarrow>
                 if passes state > 0 then (Inr (), updateSessionState (passes_update (passes state - 1)) w4)
                 else
                   (case displayAlert_fn opts place w4 of
                      (Inl e, w5) \<Rightarrow> (Inl e, w5)
                    | (Inr shown, w5) \<Rightarrow>
                        if created = 1 then (Inr (), handleUpdate (handleExceedTabs t opts place w5))
                        else if created > 1 then (Inr (), updateSessionState (passes_update (created - 1)) w5)
                        else if created = -1 then (Inr (), handleUpdate (handleExceedTabs t opts place w5))
                        else (Inr (), w5))))))"

definition handleTabCreated :: "tab \<Rightarrow> world \<Rightarrow> world" where
  "handleTabCreated t w =
    (case handleTabCreated_try t w of
       (Inr u, w') \<Rightarrow> w'
     | (Inl e, w') \<Rightarrow> console_error ''Failed to handle tab created:'' w')"

section \<open>States and predicates used in the statements\<close>

text \<open>
  A browser that has just started: unpinned tabs in one window, empty stores, no rejecting call,
  and the \<open>Object.prototype\<close> of Chrome's engine.
\<close>

definition new_tab :: "nat \<Rightarrow> tab" where
  "new_tab i = \<lparr> tab_id = i, tab_windowId = 0, tab_pinned = False \<rparr>"

definition empty_sync :: sync_store where
  "empty_sync = \<lparr> defaultOptions = None, saved_maxTotal = None, saved_maxWindow = None,
     saved_exceedTabNewWindow = None, saved_displayAlert = None, saved_countPinnedTabs = None,
     saved_displayBadge = None, saved_alertMessage = None \<rparr>"

definition chrome_prototype :: "(string \<times> jsval) list" where
  "chrome_prototype =
    [(''constructor'', JObject ''function Object() { [native code] }''),
     (''__defineGetter__'', JObject ''function __defineGetter__() { [native code] }''),
     (''__defineSetter__'', JObject ''function __defineSetter__() { [native code] }''),
     (''hasOwnProperty'', JObject ''function hasOwnProperty() { [native code] }''),
     (''__lookupGetter__'', JObject ''function __lookupGetter__() { [native code] }''),
     (''__lookupSetter__'', JObject ''function __lookupSetter__() { [native code] }''),
     (''isPrototypeOf'', JObject ''function isPrototypeOf() { [native code] }''),
     (''propertyIsEnumerable'', JObject ''function propertyIsEnumerable() { [native code] }''),
     (''toString'', JObject ''function toString() { [native code] }''),
     (''valueOf'', JObject ''function valueOf() { [native code] }''),
     (''__proto__'', JObject ''[object Object]''),
     (''toLocaleString'', JObject ''function toLocaleString() { [native code] }'')]"

definition browser :: "tab list \<Rightarrow> world" where
  "browser ts = \<lparr> tabs = ts, focusedWindow = 0, session = no_updates, sync = empty_sync,
     badgeText = [], notifications = [], console = [], faults = [],
     objectPrototype = chrome_prototype \<rparr>"

text \<open>
  \<open>next_fault w\<close>: the next call of a \<open>chrome\<close> function rejects.  \<open>calls_succeed k w\<close>:
  none of the next \<open>k\<close> calls rejects.  \<open>keeps w w'\<close>: from \<open>w\<close> to \<open>w'\<close> no tab was
  closed or moved, no notification was created, and the synchronised store and the stored
  \<open>passes\<close> are the same.
\<close>

definition next_fault :: "world \<Rightarrow> bool" where
  "next_fault w = (case faults w of [] \<Rightarrow> False | b # bs \<Rightarrow> b)"

definition keeps :: "world \<Rightarrow> world \<Rightarrow> bool" where
  "keeps w w' = (tabs w' = tabs w \<and> focusedWindow w' = focusedWindow w \<and> sync w' = sync w \<and>
     notifications w' = notifications w \<and> stored_passes (session w') = stored_passes (session w))"

definition calls_succeed :: "nat \<Rightarrow> world \<Rightarrow> bool" where
  "calls_succeed k w = (True \<notin> set (take k (faults w)))"

text \<open>
  Three tabs under a saved \<open>maxTotal\<close> of 1, with a given session store; \<open>seen n p\<close> is
  the store after \<open>n\<close> tabs were counted, with \<open>p\<close> passes.
\<close>

definition crowded :: "session_store \<Rightarrow> world" where
  "crowded s = (browser [new_tab 0, new_tab 1, new_tab 2])
     \<lparr> sync := empty_sync\<lparr>saved_maxTotal := Some (Number (Num 1))\<rparr>, session := s \<rparr>"

definition seen :: "int \<Rightarrow> int \<Rightarrow> session_store" where
  "seen n p = no_updates\<lparr>stored_tabCount := Some n, stored_passes := Some p\<rparr>"

definition crowded_options :: options where
  "crowded_options = DEFAULT_OPTIONS\<lparr>maxTotal := Number (Num 1)\<rparr>"

text \<open>
  \<open>limit_exceeded w\<close>: a creation event in \<open>w\<close> detects an exceeded scope.
  \<open>creation_events es s\<close> runs \<open>handleTabCreated\<close> once for each entry of \<open>es\<close>, a tab
  and the browser as it is when the tab's event arrives; the session store, starting as \<open>s\<close>,
  is the only thing carried from one event to the next.  The result lists the state before and
  after each event.  \<open>silent b a\<close>: from \<open>b\<close> to \<open>a\<close> no tab was closed or moved and no
  notification was created.
\<close>

definition limit_exceeded :: "world \<Rightarrow> bool" where
  "limit_exceeded w =
    (case getOptions w of (opts, w1) \<Rightarrow>
      (case fst (detectTabLimitExceeded opts w1) of Inr (Some place) \<Rightarrow> True | _ \<Rightarrow> False))"

fun creation_events :: "(tab \<times> world) list \<Rightarrow> session_store \<Rightarrow> (world \<times> world) list" where
  "creation_events [] s = []"
| "creation_events ((t, env) # es) s =
     (env\<lparr>session := s\<rparr>, handleTabCreated t (env\<lparr>session := s\<rparr>)) #
     creation_events es (session (handleTabCreated t (env\<lparr>session := s\<rparr>)))"

definition silent :: "world \<Rightarrow> world \<Rightarrow> bool" where
  "silent b a = (tabs a = tabs b \<and> focusedWindow a = focusedWindow b \<and> notifications a = notifications b)"

text \<open>The session store after the first count of three tabs, and after a batch of two is seen.\<close>

definition first_seen :: session_store where
  "first_seen = \<lparr> stored_tabCount = Some 3, stored_previousTabCount = Some (-1),
     stored_amountOfTabsCreated = Some 0, stored_passes = None \<rparr>"

definition batch_seen :: session_store where
  "batch_seen = \<lparr> stored_tabCount = Some 3, stored_previousTabCount = Some 1,
     stored_amountOfTabsCreated = Some 2, stored_passes = Some 0 \<rparr>"

text \<open>
  The states the service worker can be in: the session store is empty when the browser starts;
  between events anything but the session store may change; each event runs its handler.
\<close>

inductive reachable :: "world \<Rightarrow> bool" where
  started: "session w = no_updates \<Longrightarrow> reachable w"
| outside: "reachable w \<Longrightarrow> session w' = session w \<Longrightarrow> reachable w'"
| tab_created: "reachable w \<Longrightarrow> reachable (handleTabCreated t w)"
| updated: "reachable w \<Longrightarrow> reachable (handleUpdate w)"
| installed: "reachable w \<Longrightarrow> reachable (handleInstalled w)"














section \<open>Rejections and what each function leaves alone\<close>

lemma take_fault_eq: "take_fault w = (next_fault w, w\<lparr>faults := tl (faults w)\<rparr>)"
  by (cases w) (simp add: take_fault_def next_fault_def split: list.splits)

lemma tab_matches_no_params [simp]: "tab_matches no_params w t"
  by (simp add: tab_matches_def no_params_def)

lemma tab_matches_faults [simp]: "tab_matches p (w\<lparr>faults := f\<rparr>) = tab_matches p w"
  by (simp add: tab_matches_def fun_eq_iff split: option.splits)

lemma chrome_tabs_query_all:
  "chrome_tabs_query no_params w =
     (if next_fault w then Inl Rejected else Inr (tabs w), w\<lparr>faults := tl (faults w)\<rparr>)"
  by (simp add: chrome_tabs_query_def take_fault_eq)

lemma getSessionState_eq:
  "getSessionState w =
     (if next_fault w
      then (SESSION_DEFAULTS, console_error ''Failed to get session state:'' (w\<lparr>faults := tl (faults w)\<rparr>))
      else (with_defaults SESSION_DEFAULTS (session w), w\<lparr>faults := tl (faults w)\<rparr>))"
  by (simp add: getSessionState_def chrome_storage_session_get_def take_fault_eq)

lemma updateSessionState_eq:
  "updateSessionState u w =
     (if next_fault w
      then console_error ''Failed to update session state:'' (w\<lparr>faults := tl (faults w)\<rparr>)
      else w\<lparr>faults := tl (faults w), session := merge_session u (session w)\<rparr>)"
  by (simp add: updateSessionState_def chrome_storage_session_set_def take_fault_eq)

lemma tabQuery_eq:
  "tabQuery opts params w =
     (if next_fault w then Inl Rejected
      else Inr (filter (tab_matches (if \<not> countPinnedTabs opts then params\<lparr>q_pinned := Some False\<rparr> else params) w)
                 (tabs w)),
      w\<lparr>faults := tl (faults w)\<rparr>)"
  by (simp add: tabQuery_def chrome_tabs_query_def take_fault_eq)

section \<open>Limit detection\<close>

lemma detectTooManyTabsInWindow_tag:
  "detectTooManyTabsInWindow opts w = (Inr (Some a), w') \<Longrightarrow> a = ''window''"
  by (auto simp: detectTooManyTabsInWindow_def split: prod.splits sum.splits if_splits)

lemma detectTooManyTabsInTotal_tag:
  "detectTooManyTabsInTotal opts w = (Inr (Some b), w') \<Longrightarrow> b = ''total''"
  by (auto simp: detectTooManyTabsInTotal_def split: prod.splits sum.splits if_splits)

lemma detectTabLimitExceeded_tag:
  "detectTabLimitExceeded opts w = (Inr (Some p), w') \<Longrightarrow> p = ''window'' \<or> p = ''total''"
  by (auto simp: detectTabLimitExceeded_def promise_all_def falsy_def
      split: prod.splits sum.splits if_splits option.splits
      dest: detectTooManyTabsInWindow_tag detectTooManyTabsInTotal_tag)

lemma exceeds_iff:
  "(\<not> js_lt m (Num 1) \<and> js_gt (Num c) m) = (js_ge m (Num 1) \<and> js_gt (Num c) m)"
  by (cases m) auto

text \<open>
  C3.  When the tab query of a scope succeeds and reports \<open>n\<close> tabs, the scope check yields its
  tag exactly when the configured maximum, read as a number, is at least 1 and \<open>n\<close> is
  strictly greater than it, for the window scope and for the total scope.  With \<open>js_ge\<close> and
  \<open>js_gt\<close> false on \<open>NaN\<close>, a \<open>NaN\<close> maximum never yields a tag, a maximum below 1
  never does, and neither does a count equal to the maximum.
\<close>

theorem scope_check_iff:
  assumes "tabQuery opts in_current_window w = (Inr wts, w1)"
    and "tabQuery opts no_params w = (Inr tts, w2)"
  shows "detectTooManyTabsInWindow opts w =
           (Inr (if js_ge (number_of (maxWindow opts)) (Num 1) \<and>
                    js_gt (Num (int (length wts))) (number_of (maxWindow opts))
                 then Some ''window'' else None), w1) \<and>
         detectTooManyTabsInTotal opts w =
           (Inr (if js_ge (number_of (maxTotal opts)) (Num 1) \<and>
                    js_gt (Num (int (length tts))) (number_of (maxTotal opts))
                 then Some ''total'' else None), w2)"
proof -
  have "detectTooManyTabsInWindow opts w =
      (Inr (if \<not> js_lt (number_of (maxWindow opts)) (Num 1) \<and>
               js_gt (Num (int (length wts))) (number_of (maxWindow opts))
            then Some ''window'' else None), w1)"
    using assms(1) by (simp add: detectTooManyTabsInWindow_def)
  moreover have "detectTooManyTabsInTotal opts w =
      (Inr (if \<not> js_lt (number_of (maxTotal opts)) (Num 1) \<and>
               js_gt (Num (int (length tts))) (number_of (maxTotal opts))
            then Some ''total'' else None), w2)"
    using assms(2) by (simp add: detectTooManyTabsInTotal_def)
  ultimately show ?thesis by (simp only: exceeds_iff)
qed

theorem scope_check_iff_witness:
  "detectTooManyTabsInWindow (DEFAULT_OPTIONS\<lparr>maxWindow := Text ''2'' (Num 2), maxTotal := Number NaN\<rparr>)
       (browser [new_tab 0, new_tab 1, new_tab 2]) =
     (Inr (Some ''window''), browser [new_tab 0, new_tab 1, new_tab 2]) \<and>
   detectTooManyTabsInTotal (DEFAULT_OPTIONS\<lparr>maxWindow := Text ''2'' (Num 2), maxTotal := Number NaN\<rparr>)
       (browser [new_tab 0, new_tab 1, new_tab 2]) =
     (Inr None, browser [new_tab 0, new_tab 1, new_tab 2])"
proof -
  let ?o = "DEFAULT_OPTIONS\<lparr>maxWindow := Text ''2'' (Num 2), maxTotal := Number NaN\<rparr>"
  let ?w = "browser [new_tab 0, new_tab 1, new_tab 2]"
  have h1: "tabQuery ?o in_current_window ?w = (Inr [new_tab 0, new_tab 1, new_tab 2], ?w)"
    by (simp add: tabQuery_eq next_fault_def browser_def DEFAULT_OPTIONS_def in_current_window_def
        tab_matches_def new_tab_def)
  have h2: "tabQuery ?o no_params ?w = (Inr [new_tab 0, new_tab 1, new_tab 2], ?w)"
    by (simp add: tabQuery_eq next_fault_def browser_def DEFAULT_OPTIONS_def no_params_def
        tab_matches_def new_tab_def)
  show ?thesis using scope_check_iff [OF h1 h2] by simp
qed

text \<open>
  C4.  When the window check and the total check both yield a tag, \<open>detectTabLimitExceeded\<close>
  returns \<open>window\<close>.
\<close>

theorem window_takes_priority:
  assumes "detectTooManyTabsInWindow opts w = (Inr (Some a), w1)"
    and "detectTooManyTabsInTotal opts w1 = (Inr (Some b), w2)"
  shows "detectTabLimitExceeded opts w = (Inr (Some ''window''), w2)"
proof -
  have "a = ''window''" using assms(1) by (rule detectTooManyTabsInWindow_tag)
  then show ?thesis using assms
    by (simp add: detectTabLimitExceeded_def promise_all_def falsy_def)
qed

theorem window_takes_priority_witness:
  "detectTabLimitExceeded (DEFAULT_OPTIONS\<lparr>maxWindow := Number (Num 1), maxTotal := Number (Num 1)\<rparr>)
       (browser [new_tab 0, new_tab 1]) =
     (Inr (Some ''window''), browser [new_tab 0, new_tab 1])"
proof -
  let ?o = "DEFAULT_OPTIONS\<lparr>maxWindow := Number (Num 1), maxTotal := Number (Num 1)\<rparr>"
  let ?w = "browser [new_tab 0, new_tab 1]"
  have h1: "detectTooManyTabsInWindow ?o ?w = (Inr (Some ''window''), ?w)"
    by (simp add: detectTooManyTabsInWindow_def tabQuery_eq next_fault_def browser_def
        DEFAULT_OPTIONS_def in_current_window_def tab_matches_def new_tab_def)
  have h2: "detectTooManyTabsInTotal ?o ?w = (Inr (Some ''total''), ?w)"
    by (simp add: detectTooManyTabsInTotal_def tabQuery_eq next_fault_def browser_def
        DEFAULT_OPTIONS_def no_params_def tab_matches_def new_tab_def)
  show ?thesis using window_takes_priority [OF h1 h2] by simp
qed

section \<open>Tab count tracking\<close>

lemma keeps_refl [simp]: "keeps w w"
  by (simp add: keeps_def)

lemma keeps_trans: "keeps w w1 \<Longrightarrow> keeps w1 w2 \<Longrightarrow> keeps w w2"
  by (simp add: keeps_def)

lemma keeps_faults [simp]: "keeps w (w\<lparr>faults := f\<rparr>)"
  by (simp add: keeps_def)

lemma keeps_console_error [simp]: "keeps w (console_error m w') = keeps w w'"
  by (simp add: keeps_def console_error_def)

lemma getSessionState_keeps: "keeps w (snd (getSessionState w))"
  by (simp add: getSessionState_eq)

lemma getSessionState_session: "session (snd (getSessionState w)) = session w"
  by (simp add: getSessionState_eq console_error_def)

lemma getOptions_eq:
  "getOptions w =
     (if next_fault w then (DEFAULT_OPTIONS, console_error ''Failed to get options:'' (w\<lparr>faults := tl (faults w)\<rparr>))
      else if next_fault (w\<lparr>faults := tl (faults w)\<rparr>)
      then (DEFAULT_OPTIONS, console_error ''Failed to get options:'' (w\<lparr>faults := tl (tl (faults w))\<rparr>))
      else (merge_options (case defaultOptions (sync w) of Some d \<Rightarrow> d | None \<Rightarrow> DEFAULT_OPTIONS) (sync w),
            w\<lparr>faults := tl (tl (faults w))\<rparr>))"
  by (simp add: getOptions_def chrome_storage_sync_get_defaultOptions_def chrome_storage_sync_get_def
      take_fault_eq split: bool.splits)

lemma getOptions_keeps: "keeps w (snd (getOptions w))"
  by (simp add: getOptions_eq)

lemma getOptions_session: "session (snd (getOptions w)) = session w"
  by (simp add: getOptions_eq console_error_def)

lemma tabQuery_keeps: "keeps w (snd (tabQuery opts p w))"
  by (simp add: tabQuery_eq)

lemma tabQuery_session: "session (snd (tabQuery opts p w)) = session w"
  by (simp add: tabQuery_eq)

lemma detectTabLimitExceeded_keeps: "keeps w (snd (detectTabLimitExceeded opts w))"
  by (simp add: detectTabLimitExceeded_def promise_all_def detectTooManyTabsInWindow_def
      detectTooManyTabsInTotal_def tabQuery_eq keeps_def split: prod.splits sum.splits)

lemma detectTabLimitExceeded_session: "session (snd (detectTabLimitExceeded opts w)) = session w"
  by (simp add: detectTabLimitExceeded_def promise_all_def detectTooManyTabsInWindow_def
      detectTooManyTabsInTotal_def tabQuery_eq split: prod.splits sum.splits)

lemma updateSessionState_keeps:
  "stored_passes u = None \<Longrightarrow> keeps w (updateSessionState u w)"
  by (simp add: updateSessionState_eq keeps_def merge_session_def console_error_def)

lemma updateTabCount_keeps: "keeps w (snd (updateTabCount w))"
  by (simp add: updateTabCount_def chrome_tabs_query_all getSessionState_eq updateSessionState_eq
      keeps_def merge_session_def console_error_def Let_def)

lemma calls_succeed_next: "calls_succeed (Suc k) w \<Longrightarrow> \<not> next_fault w"
  by (cases "faults w") (simp_all add: calls_succeed_def next_fault_def)

lemma calls_succeed_tl: "calls_succeed (Suc k) w \<Longrightarrow> calls_succeed k (w\<lparr>faults := tl (faults w)\<rparr>)"
  by (cases "faults w") (simp_all add: calls_succeed_def)

text \<open>
  C5.  When neither the tab query nor the two session-store calls reject: if the number of
  tabs equals the stored \<open>tabCount\<close>, \<open>updateTabCount\<close> returns the stored
  \<open>amountOfTabsCreated\<close> and leaves the session store as it is; otherwise it stores the old
  \<open>tabCount\<close> as \<open>previousTabCount\<close>, the new count as \<open>tabCount\<close>, and as
  \<open>amountOfTabsCreated\<close> the difference of the two, or 0 when the old \<open>tabCount\<close> was -1,
  and returns that value.  Keys that the store lacks read as their defaults.
\<close>

theorem updateTabCount_spec:
  assumes ok: "calls_succeed 3 w"
    and st: "st = with_defaults SESSION_DEFAULTS (session w)"
    and n: "n = int (length (tabs w))"
    and d: "d = (if tabCount st \<noteq> -1 then n - tabCount st else 0)"
  shows "(n = tabCount st \<longrightarrow>
            fst (updateTabCount w) = amountOfTabsCreated st \<and> session (snd (updateTabCount w)) = session w) \<and>
         (n \<noteq> tabCount st \<longrightarrow>
            fst (updateTabCount w) = d \<and>
            session (snd (updateTabCount w)) =
              (session w)\<lparr>stored_tabCount := Some n, stored_previousTabCount := Some (tabCount st),
                          stored_amountOfTabsCreated := Some d\<rparr>)"
proof -
  let ?w1 = "w\<lparr>faults := tl (faults w)\<rparr>"
  let ?w2 = "w\<lparr>faults := tl (tl (faults w))\<rparr>"
  have ok3: "calls_succeed (Suc (Suc (Suc 0))) w" using ok by (simp add: eval_nat_numeral)
  have f1: "\<not> next_fault w" using ok3 by (rule calls_succeed_next)
  have ok2: "calls_succeed (Suc (Suc 0)) ?w1" using ok3 by (rule calls_succeed_tl)
  have f2: "\<not> next_fault ?w1" using ok2 by (rule calls_succeed_next)
  have ok1: "calls_succeed (Suc 0) ?w2" using calls_succeed_tl [OF ok2] by simp
  have f3: "\<not> next_fault ?w2" using ok1 by (rule calls_succeed_next)
  show ?thesis
    using f1 f2 f3
    by (simp add: updateTabCount_def chrome_tabs_query_all getSessionState_eq updateSessionState_eq
        merge_session_def Let_def st n d)
qed

theorem updateTabCount_spec_witness:
  "calls_succeed 3 (browser [new_tab 0, new_tab 1]) \<and>
   fst (updateTabCount (browser [new_tab 0, new_tab 1])) = 0 \<and>
   session (snd (updateTabCount (browser [new_tab 0, new_tab 1]))) =
     \<lparr> stored_tabCount = Some 2, stored_previousTabCount = Some (-1),
       stored_amountOfTabsCreated = Some 0, stored_passes = None \<rparr> \<and>
   fst (updateTabCount (crowded batch_seen)) = 2 \<and>
   session (snd (updateTabCount (crowded batch_seen))) = batch_seen"
proof -
  let ?w = "browser [new_tab 0, new_tab 1]"
  have ok: "calls_succeed 3 ?w" by (simp add: calls_succeed_def browser_def)
  have st: "SESSION_DEFAULTS = with_defaults SESSION_DEFAULTS (session ?w)"
    by (simp add: with_defaults_def browser_def no_updates_def SESSION_DEFAULTS_def)
  have n: "(2::int) = int (length (tabs ?w))" by (simp add: browser_def)
  have d: "(0::int) = (if tabCount SESSION_DEFAULTS \<noteq> -1 then 2 - tabCount SESSION_DEFAULTS else 0)"
    by (simp add: SESSION_DEFAULTS_def)
  let ?v = "crowded batch_seen"
  let ?st = "\<lparr> tabCount = 3, previousTabCount = 1, amountOfTabsCreated = 2, passes = 0 \<rparr>"
  have ok': "calls_succeed 3 ?v" by (simp add: calls_succeed_def crowded_def browser_def)
  have st': "?st = with_defaults SESSION_DEFAULTS (session ?v)"
    by (simp add: with_defaults_def crowded_def batch_seen_def)
  have n': "(3::int) = int (length (tabs ?v))" by (simp add: crowded_def browser_def)
  have d': "(0::int) = (if tabCount ?st \<noteq> -1 then 3 - tabCount ?st else 0)" by simp
  have b: "fst (updateTabCount ?v) = 2 \<and> session (snd (updateTabCount ?v)) = batch_seen"
    using updateTabCount_spec [OF ok' st' n' d'] by (simp add: crowded_def)
  show ?thesis using ok b updateTabCount_spec [OF ok st n d]
    by (simp add: SESSION_DEFAULTS_def browser_def no_updates_def)
qed

section \<open>The creation handler\<close>

lemma updateSessionState_frame:
  "tabs (updateSessionState u w) = tabs w"
  "focusedWindow (updateSessionState u w) = focusedWindow w"
  "notifications (updateSessionState u w) = notifications w"
  "sync (updateSessionState u w) = sync w"
  by (simp_all add: updateSessionState_eq console_error_def)

lemma updateSessionState_passes:
  "\<not> next_fault w \<Longrightarrow> stored_passes (session (updateSessionState (passes_update p) w)) = Some p"
  by (simp add: updateSessionState_eq passes_update_def no_updates_def merge_session_def)

lemma replacer_ok:
  "place = ''window'' \<or> place = ''total'' \<Longrightarrow> \<exists>x. replacer proto opts place p1 = Inr x"
  by (auto simp: replacer_def capitalizeFirstLetter_def)

lemma string_replace_ok:
  "(\<And>p1. \<exists>x. f p1 = Inr x) \<Longrightarrow> \<exists>out. string_replace f s = Inr out"
proof (induction f s rule: string_replace.induct)
  case (1 f)
  then show ?case by simp
next
  case (2 f c cs)
  show ?case
  proof (cases "regex_exec (c # cs)")
    case None
    then show ?thesis using "2.IH"(1) "2.prems" by (auto split: sum.splits)
  next
    case (Some m)
    obtain p1 after where m: "m = (p1, after)" by (cases m)
    obtain x where x: "f p1 = Inr x" using "2.prems" by blast
    have "\<exists>out. string_replace f after = Inr out"
      using "2.IH"(2) [OF Some [unfolded m] refl x] "2.prems" by blast
    then show ?thesis using Some m x by auto
  qed
qed

lemma displayAlert_fn_ok:
  assumes "place = ''window'' \<or> place = ''total''"
  shows "\<exists>v. fst (displayAlert_fn opts place w) = Inr v"
proof -
  obtain out where "string_replace (replacer (objectPrototype w) opts place) (alertMessage opts) = Inr out"
    using string_replace_ok [of "replacer (objectPrototype w) opts place"] replacer_ok [OF assms] by blast
  then show ?thesis
    by (simp add: displayAlert_fn_def chrome_notifications_create_def take_fault_eq split: bool.splits)
qed

lemma displayAlert_fn_frame:
  "tabs (snd (displayAlert_fn opts place w)) = tabs w"
  "focusedWindow (snd (displayAlert_fn opts place w)) = focusedWindow w"
  "session (snd (displayAlert_fn opts place w)) = session w"
  "sync (snd (displayAlert_fn opts place w)) = sync w"
  by (simp_all add: displayAlert_fn_def chrome_notifications_create_def take_fault_eq console_error_def
      split: sum.splits bool.splits)

lemma before_passes_check:
  assumes "getOptions w = (opts, w1)"
    and "detectTabLimitExceeded opts w1 = (Inr (Some place), w2)"
    and "updateTabCount w2 = (created, w3)"
    and "getSessionState w3 = (state, w4)"
  shows "keeps w w4"
proof -
  have "keeps w w1" using getOptions_keeps [of w] assms(1) by simp
  moreover have "keeps w1 w2" using detectTabLimitExceeded_keeps [of w1 opts] assms(2) by simp
  moreover have "keeps w2 w3" using updateTabCount_keeps [of w2] assms(3) by simp
  moreover have "keeps w3 w4" using getSessionState_keeps [of w3] assms(4) by simp
  ultimately show ?thesis by (blast intro: keeps_trans)
qed

text \<open>
  C1.  In \<open>handleTabCreated\<close>, when a limit scope is detected as exceeded and the session
  state read afterwards has \<open>passes > 0\<close>, the handler does nothing more than write
  \<open>passes - 1\<close> to the session store: the store holds that value when the write does not
  reject, no tab is closed or moved, and no notification is created.
\<close>

theorem passes_suppress_enforcement:
  assumes "getOptions w = (opts, w1)"
    and "detectTabLimitExceeded opts w1 = (Inr (Some place), w2)"
    and "updateTabCount w2 = (created, w3)"
    and "getSessionState w3 = (state, w4)"
    and "passes state > 0"
  shows "handleTabCreated t w = updateSessionState (passes_update (passes state - 1)) w4 \<and>
         (\<not> next_fault w4 \<longrightarrow> stored_passes (session (handleTabCreated t w)) = Some (passes state - 1)) \<and>
         tabs (handleTabCreated t w) = tabs w \<and>
         focusedWindow (handleTabCreated t w) = focusedWindow w \<and>
         notifications (handleTabCreated t w) = notifications w"
proof -
  have place: "place \<noteq> []" using detectTabLimitExceeded_tag [OF assms(2)] by auto
  have run: "handleTabCreated t w = updateSessionState (passes_update (passes state - 1)) w4"
    using assms place by (simp add: handleTabCreated_def handleTabCreated_try_def)
  have "keeps w w4" using assms(1-4) by (rule before_passes_check)
  then show ?thesis
    unfolding run by (simp add: updateSessionState_frame updateSessionState_passes keeps_def)
qed

lemma crowded_getOptions: "getOptions (crowded s) = (crowded_options, crowded s)"
  by (simp add: getOptions_eq crowded_def browser_def next_fault_def empty_sync_def merge_options_def
      crowded_options_def DEFAULT_OPTIONS_def)

lemma crowded_detect:
  "detectTabLimitExceeded crowded_options (crowded s) = (Inr (Some ''total''), crowded s)"
  by (simp add: detectTabLimitExceeded_def promise_all_def detectTooManyTabsInWindow_def
      detectTooManyTabsInTotal_def tabQuery_eq crowded_def browser_def next_fault_def
      crowded_options_def DEFAULT_OPTIONS_def falsy_def in_current_window_def no_params_def
      tab_matches_def new_tab_def)

lemma crowded_updateTabCount_same:
  "updateTabCount (crowded (seen 3 p)) = (-1, crowded (seen 3 p))"
  by (simp add: updateTabCount_def chrome_tabs_query_all getSessionState_eq crowded_def browser_def
      next_fault_def with_defaults_def no_updates_def SESSION_DEFAULTS_def seen_def)

lemma crowded_getSessionState:
  "getSessionState (crowded (seen n p)) =
     (\<lparr> tabCount = n, previousTabCount = -1, amountOfTabsCreated = -1, passes = p \<rparr>,
      crowded (seen n p))"
  by (simp add: getSessionState_eq crowded_def browser_def
      next_fault_def with_defaults_def no_updates_def SESSION_DEFAULTS_def seen_def)

theorem passes_suppress_enforcement_witness:
  "handleTabCreated (new_tab 2) (crowded (seen 3 2)) = crowded (seen 3 1)"
proof -
  have p: "passes \<lparr> tabCount = 3, previousTabCount = -1, amountOfTabsCreated = -1, passes = 2 \<rparr> > 0"
    by simp
  have "\<not> next_fault (crowded (seen 3 2))"
    by (simp add: next_fault_def crowded_def browser_def)
  then show ?thesis
    using passes_suppress_enforcement [OF crowded_getOptions crowded_detect crowded_updateTabCount_same
        crowded_getSessionState p, of "new_tab 2"]
    by (simp add: updateSessionState_eq crowded_def browser_def passes_update_def merge_session_def
        no_updates_def seen_def)
qed

lemma next_fault_none [simp]: "faults w = [] \<Longrightarrow> \<not> next_fault w"
  by (simp add: next_fault_def)

lemma faults_console_error [simp]: "faults (console_error m w) = faults w"
  by (simp add: console_error_def)

lemma getOptions_faults: "faults w = [] \<Longrightarrow> faults (snd (getOptions w)) = []"
  by (simp add: getOptions_eq next_fault_def)

lemma detectTabLimitExceeded_faults: "faults w = [] \<Longrightarrow> faults (snd (detectTabLimitExceeded opts w)) = []"
  by (simp add: detectTabLimitExceeded_def promise_all_def detectTooManyTabsInWindow_def
      detectTooManyTabsInTotal_def tabQuery_eq next_fault_def split: prod.splits sum.splits)

lemma updateTabCount_faults: "faults w = [] \<Longrightarrow> faults (snd (updateTabCount w)) = []"
  by (simp add: updateTabCount_def chrome_tabs_query_all getSessionState_eq updateSessionState_eq
      next_fault_def Let_def)

lemma getSessionState_faults: "faults w = [] \<Longrightarrow> faults (snd (getSessionState w)) = []"
  by (simp add: getSessionState_eq)

lemma getSessionState_passes:
  "\<not> next_fault w \<Longrightarrow> stored_passes (session w) = Some p \<Longrightarrow> passes (fst (getSessionState w)) = p"
  by (simp add: getSessionState_eq with_defaults_def)

lemma displayAlert_fn_faults: "faults w = [] \<Longrightarrow> faults (snd (displayAlert_fn opts place w)) = []"
  by (simp add: displayAlert_fn_def chrome_notifications_create_def take_fault_eq
      split: sum.splits bool.splits)

lemma passes_branch:
  assumes "getOptions w = (opts, w1)"
    and "detectTabLimitExceeded opts w1 = (Inr (Some place), w2)"
    and "updateTabCount w2 = (created, w3)"
    and "getSessionState w3 = (state, w4)"
    and "passes state > 0"
  shows "handleTabCreated t w = updateSessionState (passes_update (passes state - 1)) w4"
proof -
  have "place \<noteq> []" using detectTabLimitExceeded_tag [OF assms(2)] by auto
  then show ?thesis
    using assms by (simp add: handleTabCreated_def handleTabCreated_try_def)
qed

lemma limit_exceededE:
  assumes "limit_exceeded w"
  obtains opts w1 place w2 where "getOptions w = (opts, w1)"
    and "detectTabLimitExceeded opts w1 = (Inr (Some place), w2)"
proof -
  obtain opts w1 where a: "getOptions w = (opts, w1)" by (cases "getOptions w")
  obtain r w2 where b: "detectTabLimitExceeded opts w1 = (r, w2)" by (cases "detectTabLimitExceeded opts w1")
  from assms a b obtain place where "r = Inr (Some place)"
    by (auto simp: limit_exceeded_def split: sum.splits option.splits)
  with a b that show thesis by blast
qed

lemma suppressed_event:
  assumes nf: "faults w = []" and ex: "limit_exceeded w"
    and p: "stored_passes (session w) = Some p" and pos: "p > 0"
  shows "silent w (handleTabCreated t w) \<and> stored_passes (session (handleTabCreated t w)) = Some (p - 1)"
proof -
  from ex obtain opts w1 place w2 where s1: "getOptions w = (opts, w1)"
    and s2: "detectTabLimitExceeded opts w1 = (Inr (Some place), w2)" by (rule limit_exceededE)
  obtain created w3 where s3: "updateTabCount w2 = (created, w3)" by (cases "updateTabCount w2")
  obtain state w4 where s4: "getSessionState w3 = (state, w4)" by (cases "getSessionState w3")
  have k3: "keeps w w3"
    using keeps_trans [OF keeps_trans [OF getOptions_keeps [of w] detectTabLimitExceeded_keeps [of _ opts]]
        updateTabCount_keeps] s1 s2 s3
    by (metis snd_conv)
  have k4: "keeps w w4" using s1 s2 s3 s4 by (rule before_passes_check)
  have f1: "faults w1 = []" using getOptions_faults [OF nf] s1 by simp
  have f2: "faults w2 = []" using detectTabLimitExceeded_faults [OF f1, of opts] s2 by simp
  have f3: "faults w3 = []" using updateTabCount_faults [OF f2] s3 by simp
  have f4: "faults w4 = []" using getSessionState_faults [OF f3] s4 by simp
  have "stored_passes (session w3) = Some p" using k3 p by (simp add: keeps_def)
  then have ps: "passes state = p" using getSessionState_passes [of w3 p] f3 s4 by simp
  have run: "handleTabCreated t w = updateSessionState (passes_update (p - 1)) w4"
    using passes_branch [OF s1 s2 s3 s4] ps pos by simp
  show ?thesis
    using k4 f4 unfolding run
    by (simp add: silent_def updateSessionState_frame updateSessionState_passes keeps_def)
qed

lemma updateBadge_keeps: "keeps w (updateBadge opts w)"
  by (simp add: updateBadge_def chrome_action_setBadgeText_def promise_all_def windowRemaining_def
      totalRemaining_def tabQuery_eq take_fault_eq keeps_def console_error_def
      split: prod.splits sum.splits bool.splits)

lemma handleUpdate_keeps: "keeps w (handleUpdate w)"
proof -
  obtain created w1 where a: "updateTabCount w = (created, w1)" by (cases "updateTabCount w")
  obtain opts w2 where b: "getOptions w1 = (opts, w2)" by (cases "getOptions w1")
  have "keeps w w1" using updateTabCount_keeps [of w] a by simp
  moreover have "keeps w1 w2" using getOptions_keeps [of w1] b by simp
  moreover have "keeps w2 (updateBadge opts w2)" by (rule updateBadge_keeps)
  ultimately have "keeps w (updateBadge opts w2)" by (blast intro: keeps_trans)
  then show ?thesis using a b by (simp add: handleUpdate_def)
qed

lemma handleExceedTabs_frame:
  "notifications (handleExceedTabs t opts place w) = notifications w"
  "session (handleExceedTabs t opts place w) = session w"
  "sync (handleExceedTabs t opts place w) = sync w"
  by (simp_all add: handleExceedTabs_def chrome_windows_create_def chrome_tabs_remove_def
      take_fault_eq console_error_def split: bool.splits)

lemma no_passes_branch:
  assumes "getOptions w = (opts, w1)"
    and "detectTabLimitExceeded opts w1 = (Inr (Some place), w2)"
    and "updateTabCount w2 = (created, w3)"
    and "getSessionState w3 = (state, w4)"
    and "\<not> passes state > 0"
    and "displayAlert_fn opts place w4 = (Inr shown, w5)"
  shows "handleTabCreated_try t w =
     (Inr (), if created = 1 \<or> created = -1 then handleUpdate (handleExceedTabs t opts place w5)
              else if created > 1 then updateSessionState (passes_update (created - 1)) w5
              else w5)"
proof -
  have "place \<noteq> []" using detectTabLimitExceeded_tag [OF assms(2)] by auto
  then show ?thesis
    using assms by (simp add: handleTabCreated_try_def)
qed

lemma displayAlert_fn_notifies:
  assumes "place = ''window'' \<or> place = ''total''" and "displayAlert opts" and "\<not> next_fault w"
  shows "\<exists>msg. notifications (snd (displayAlert_fn opts place w)) = notifications w @ [msg]"
proof -
  obtain out where "string_replace (replacer (objectPrototype w) opts place) (alertMessage opts) = Inr out"
    using string_replace_ok [of "replacer (objectPrototype w) opts place"] replacer_ok [OF assms(1)] by blast
  then show ?thesis
    using assms(2,3)
    by (simp add: displayAlert_fn_def chrome_notifications_create_def take_fault_eq)
qed

lemma alerted_event:
  assumes nf: "faults w = []" and ex: "limit_exceeded w"
    and p: "stored_passes (session w) = Some 0" and da: "displayAlert (fst (getOptions w))"
  shows "\<exists>msg. notifications (handleTabCreated t w) = notifications w @ [msg]"
proof -
  from ex obtain opts w1 place w2 where s1: "getOptions w = (opts, w1)"
    and s2: "detectTabLimitExceeded opts w1 = (Inr (Some place), w2)" by (rule limit_exceededE)
  obtain created w3 where s3: "updateTabCount w2 = (created, w3)" by (cases "updateTabCount w2")
  obtain state w4 where s4: "getSessionState w3 = (state, w4)" by (cases "getSessionState w3")
  have tag: "place = ''window'' \<or> place = ''total''" using s2 by (rule detectTabLimitExceeded_tag)
  obtain shown where ok: "fst (displayAlert_fn opts place w4) = Inr shown"
    using displayAlert_fn_ok [OF tag] by blast
  obtain w5 where s5: "displayAlert_fn opts place w4 = (Inr shown, w5)"
    using ok by (cases "displayAlert_fn opts place w4") simp
  have k3: "keeps w w3"
    using keeps_trans [OF keeps_trans [OF getOptions_keeps [of w] detectTabLimitExceeded_keeps [of _ opts]]
        updateTabCount_keeps] s1 s2 s3
    by (metis snd_conv)
  have k4: "keeps w w4" using s1 s2 s3 s4 by (rule before_passes_check)
  have f1: "faults w1 = []" using getOptions_faults [OF nf] s1 by simp
  have f2: "faults w2 = []" using detectTabLimitExceeded_faults [OF f1, of opts] s2 by simp
  have f3: "faults w3 = []" using updateTabCount_faults [OF f2] s3 by simp
  have f4: "faults w4 = []" using getSessionState_faults [OF f3] s4 by simp
  have "stored_passes (session w3) = Some 0" using k3 p by (simp add: keeps_def)
  then have ps: "passes state = 0" using getSessionState_passes [of w3 0] f3 s4 by simp
  have "displayAlert opts" using da s1 by simp
  then obtain msg where n5: "notifications w5 = notifications w4 @ [msg]"
    using displayAlert_fn_notifies [OF tag, of opts w4] f4 s5 by auto
  have "notifications (handleTabCreated t w) = notifications w5"
    using no_passes_branch [OF s1 s2 s3 s4 _ s5, of t] ps handleUpdate_keeps [of "handleExceedTabs t opts place w5"]
    by (simp add: handleTabCreated_def keeps_def handleExceedTabs_frame updateSessionState_frame)
  then show ?thesis using n5 k4 by (simp add: keeps_def)
qed

lemma countdown:
  assumes "stored_passes s = Some p" and "0 \<le> p"
    and "\<forall>(b, a)\<in>set (creation_events es s). faults b = [] \<and> limit_exceeded b"
  shows "\<forall>i<length es. case creation_events es s ! i of (b, a) \<Rightarrow>
           (int i < p \<longrightarrow> silent b a \<and> stored_passes (session a) = Some (p - 1 - int i)) \<and>
           (int i = p \<longrightarrow> displayAlert (fst (getOptions b)) \<longrightarrow>
              (\<exists>msg. notifications a = notifications b @ [msg]))"
  using assms
proof (induction es arbitrary: s p)
  case Nil
  then show ?case by simp
next
  case (Cons e es)
  obtain t env where e: "e = (t, env)" by (cases e)
  let ?b = "env\<lparr>session := s\<rparr>"
  let ?a = "handleTabCreated t ?b"
  have hb: "faults ?b = []" "limit_exceeded ?b" using Cons.prems(3) e by auto
  have rest: "\<forall>(b, a)\<in>set (creation_events es (session ?a)). faults b = [] \<and> limit_exceeded b"
    using Cons.prems(3) e by auto
  have sp: "stored_passes (session ?b) = Some p" using Cons.prems(1) by simp
  show ?case
  proof (cases "p = 0")
    case True
    have "displayAlert (fst (getOptions ?b)) \<longrightarrow> (\<exists>msg. notifications ?a = notifications ?b @ [msg])"
      using alerted_event [OF hb, of t] sp True by blast
    then show ?thesis using True e by (auto simp: nth_Cons split: nat.splits)
  next
    case False
    then have pos: "p > 0" using Cons.prems(2) by simp
    have first: "silent ?b ?a \<and> stored_passes (session ?a) = Some (p - 1)"
      using suppressed_event [OF hb sp pos] .
    have ih: "\<forall>i<length es. case creation_events es (session ?a) ! i of (b, a) \<Rightarrow>
           (int i < p - 1 \<longrightarrow> silent b a \<and> stored_passes (session a) = Some (p - 1 - 1 - int i)) \<and>
           (int i = p - 1 \<longrightarrow> displayAlert (fst (getOptions b)) \<longrightarrow>
              (\<exists>msg. notifications a = notifications b @ [msg]))"
      using Cons.IH [of "session ?a" "p - 1"] first rest pos by simp
    show ?thesis
    proof (intro allI impI)
      fix i assume i: "i < length (e # es)"
      show "case creation_events (e # es) s ! i of (b, a) \<Rightarrow>
           (int i < p \<longrightarrow> silent b a \<and> stored_passes (session a) = Some (p - 1 - int i)) \<and>
           (int i = p \<longrightarrow> displayAlert (fst (getOptions b)) \<longrightarrow>
              (\<exists>msg. notifications a = notifications b @ [msg]))"
      proof (cases i)
        case 0
        then show ?thesis using first pos e by simp
      next
        case (Suc j)
        then have "j < length es" using i by simp
        then show ?thesis using ih [rule_format, of j] Suc e
          by (auto split: prod.splits simp: algebra_simps)
      qed
    qed
  qed
qed

text \<open>
  C2.  In \<open>handleTabCreated\<close>, when a limit scope is exceeded, the session state read has
  \<open>passes = 0\<close> and \<open>updateTabCount\<close> returned a delta greater than 1, the handler closes or
  moves no tab and ends by writing \<open>passes = delta - 1\<close>.  When that write does not reject, the
  store holds \<open>delta - 1\<close>, and in any later run of creation events that find a limit exceeded
  and meet no rejecting call (the browser may change between them, the session store is carried
  over), each of the first \<open>delta - 1\<close> events is silent and takes one pass, while the event
  after them reaches the alert.
\<close>

theorem batch_sets_passes:
  assumes s1: "getOptions w = (opts, w1)"
    and s2: "detectTabLimitExceeded opts w1 = (Inr (Some place), w2)"
    and s3: "updateTabCount w2 = (created, w3)"
    and s4: "getSessionState w3 = (state, w4)"
    and ps: "passes state = 0"
    and batch: "created > 1"
    and s5: "w5 = snd (displayAlert_fn opts place w4)"
  shows "handleTabCreated t w = updateSessionState (passes_update (created - 1)) w5 \<and>
         tabs (handleTabCreated t w) = tabs w \<and>
         focusedWindow (handleTabCreated t w) = focusedWindow w \<and>
         (\<not> next_fault w5 \<longrightarrow>
            stored_passes (session (handleTabCreated t w)) = Some (created - 1) \<and>
            (\<forall>es. (\<forall>(b, a)\<in>set (creation_events es (session (handleTabCreated t w))).
                      faults b = [] \<and> limit_exceeded b) \<longrightarrow>
               (\<forall>i<length es. case creation_events es (session (handleTabCreated t w)) ! i of (b, a) \<Rightarrow>
                  (int i < created - 1 \<longrightarrow>
                     silent b a \<and> stored_passes (session a) = Some (created - 1 - 1 - int i)) \<and>
                  (int i = created - 1 \<longrightarrow> displayAlert (fst (getOptions b)) \<longrightarrow>
                     (\<exists>msg. notifications a = notifications b @ [msg])))))"
proof -
  have tag: "place = ''window'' \<or> place = ''total''" using s2 by (rule detectTabLimitExceeded_tag)
  obtain shown where "fst (displayAlert_fn opts place w4) = Inr shown"
    using displayAlert_fn_ok [OF tag] by blast
  then have d: "displayAlert_fn opts place w4 = (Inr shown, w5)"
    using s5 by (cases "displayAlert_fn opts place w4") simp
  have run: "handleTabCreated t w = updateSessionState (passes_update (created - 1)) w5"
    using no_passes_branch [OF s1 s2 s3 s4 _ d, of t] ps batch by (simp add: handleTabCreated_def)
  have k4: "keeps w w4" using s1 s2 s3 s4 by (rule before_passes_check)
  have same: "tabs (handleTabCreated t w) = tabs w \<and> focusedWindow (handleTabCreated t w) = focusedWindow w"
    using k4 unfolding run s5 by (simp add: updateSessionState_frame displayAlert_fn_frame keeps_def)
  have later: "stored_passes (session (handleTabCreated t w)) = Some (created - 1) \<and>
            (\<forall>es. (\<forall>(b, a)\<in>set (creation_events es (session (handleTabCreated t w))).
                      faults b = [] \<and> limit_exceeded b) \<longrightarrow>
               (\<forall>i<length es. case creation_events es (session (handleTabCreated t w)) ! i of (b, a) \<Rightarrow>
                  (int i < created - 1 \<longrightarrow>
                     silent b a \<and> stored_passes (session a) = Some (created - 1 - 1 - int i)) \<and>
                  (int i = created - 1 \<longrightarrow> displayAlert (fst (getOptions b)) \<longrightarrow>
                     (\<exists>msg. notifications a = notifications b @ [msg]))))"
    if ok: "\<not> next_fault w5"
  proof -
    have stored: "stored_passes (session (handleTabCreated t w)) = Some (created - 1)"
      unfolding run using ok by (rule updateSessionState_passes)
    have nonneg: "0 \<le> created - 1" using batch by simp
    show ?thesis
      using stored countdown [OF stored nonneg] by blast
  qed
  show ?thesis using run same later by blast
qed

text \<open>
  C6.  In \<open>handleTabCreated\<close>, when a limit scope is exceeded, the session state read has
  \<open>passes = 0\<close> and the delta is 0 or a negative number other than -1, the body of the handler
  ends without an exception, no tab is closed or moved, and the stored \<open>passes\<close> is untouched.
\<close>

theorem no_action_on_other_delta:
  assumes s1: "getOptions w = (opts, w1)"
    and s2: "detectTabLimitExceeded opts w1 = (Inr (Some place), w2)"
    and s3: "updateTabCount w2 = (created, w3)"
    and s4: "getSessionState w3 = (state, w4)"
    and ps: "passes state = 0"
    and other: "created = 0 \<or> (created < 0 \<and> created \<noteq> -1)"
  shows "fst (handleTabCreated_try t w) = Inr () \<and>
         tabs (handleTabCreated t w) = tabs w \<and>
         focusedWindow (handleTabCreated t w) = focusedWindow w \<and>
         stored_passes (session (handleTabCreated t w)) = stored_passes (session w)"
proof -
  have tag: "place = ''window'' \<or> place = ''total''" using s2 by (rule detectTabLimitExceeded_tag)
  obtain shown where "fst (displayAlert_fn opts place w4) = Inr shown"
    using displayAlert_fn_ok [OF tag] by blast
  then have d: "displayAlert_fn opts place w4 = (Inr shown, snd (displayAlert_fn opts place w4))"
    by (cases "displayAlert_fn opts place w4") simp
  have run: "handleTabCreated_try t w = (Inr (), snd (displayAlert_fn opts place w4))"
    using no_passes_branch [OF s1 s2 s3 s4 _ d, of t] ps other by auto
  have k4: "keeps w w4" using s1 s2 s3 s4 by (rule before_passes_check)
  show ?thesis
    using k4 by (simp add: handleTabCreated_def run displayAlert_fn_frame keeps_def)
qed

lemma crowded_session [simp]: "(crowded s)\<lparr>session := s'\<rparr> = crowded s'"
  by (simp add: crowded_def)

lemma crowded_faults [simp]: "faults (crowded s) = []"
  by (simp add: crowded_def browser_def)

lemma crowded_limit_exceeded [simp]: "limit_exceeded (crowded s)"
  by (simp add: limit_exceeded_def crowded_getOptions crowded_detect)

lemma crowded_first_updateTabCount: "updateTabCount (crowded no_updates) = (0, crowded first_seen)"
  by (simp add: updateTabCount_def chrome_tabs_query_all getSessionState_eq updateSessionState_eq
      crowded_def browser_def next_fault_def with_defaults_def no_updates_def SESSION_DEFAULTS_def
      merge_session_def first_seen_def)

lemma crowded_first_getSessionState:
  "getSessionState (crowded first_seen) =
     (\<lparr> tabCount = 3, previousTabCount = -1, amountOfTabsCreated = 0, passes = 0 \<rparr>, crowded first_seen)"
  by (simp add: getSessionState_eq crowded_def browser_def next_fault_def with_defaults_def
      SESSION_DEFAULTS_def first_seen_def)

theorem no_action_on_other_delta_witness:
  "fst (handleTabCreated_try (new_tab 2) (crowded no_updates)) = Inr () \<and>
   tabs (handleTabCreated (new_tab 2) (crowded no_updates)) = [new_tab 0, new_tab 1, new_tab 2] \<and>
   focusedWindow (handleTabCreated (new_tab 2) (crowded no_updates)) = 0 \<and>
   stored_passes (session (handleTabCreated (new_tab 2) (crowded no_updates))) = None"
proof -
  have ps: "passes \<lparr> tabCount = 3, previousTabCount = -1, amountOfTabsCreated = 0, passes = 0 \<rparr> = 0"
    by simp
  have other: "(0::int) = 0 \<or> ((0::int) < 0 \<and> (0::int) \<noteq> -1)" by simp
  show ?thesis
    using no_action_on_other_delta [OF crowded_getOptions crowded_detect crowded_first_updateTabCount
        crowded_first_getSessionState ps other, of "new_tab 2"]
    by (simp add: crowded_def browser_def no_updates_def)
qed

lemma crowded_batch_updateTabCount: "updateTabCount (crowded (seen 1 0)) = (2, crowded batch_seen)"
  by (simp add: updateTabCount_def chrome_tabs_query_all getSessionState_eq updateSessionState_eq
      crowded_def browser_def next_fault_def with_defaults_def no_updates_def SESSION_DEFAULTS_def
      merge_session_def batch_seen_def seen_def)

lemma crowded_batch_getSessionState:
  "getSessionState (crowded batch_seen) =
     (\<lparr> tabCount = 3, previousTabCount = 1, amountOfTabsCreated = 2, passes = 0 \<rparr>, crowded batch_seen)"
  by (simp add: getSessionState_eq crowded_def browser_def next_fault_def with_defaults_def
      SESSION_DEFAULTS_def batch_seen_def)

theorem batch_sets_passes_witness:
  "stored_passes (session (handleTabCreated (new_tab 0) (crowded (seen 1 0)))) = Some 1 \<and>
   tabs (handleTabCreated (new_tab 0) (crowded (seen 1 0))) = [new_tab 0, new_tab 1, new_tab 2] \<and>
   (case creation_events [(new_tab 1, crowded no_updates), (new_tab 2, crowded no_updates)]
           (session (handleTabCreated (new_tab 0) (crowded (seen 1 0)))) ! 0 of
      (b, a) \<Rightarrow> silent b a \<and> stored_passes (session a) = Some 0) \<and>
   (case creation_events [(new_tab 1, crowded no_updates), (new_tab 2, crowded no_updates)]
           (session (handleTabCreated (new_tab 0) (crowded (seen 1 0)))) ! 1 of
      (b, a) \<Rightarrow> \<exists>msg. notifications a = notifications b @ [msg])"
proof -
  let ?w5 = "snd (displayAlert_fn crowded_options ''total'' (crowded batch_seen))"
  let ?s = "session (handleTabCreated (new_tab 0) (crowded (seen 1 0)))"
  let ?es = "[(new_tab 1, crowded no_updates), (new_tab 2, crowded no_updates)]"
  have ps: "passes \<lparr> tabCount = 3, previousTabCount = 1, amountOfTabsCreated = 2, passes = 0 \<rparr> = 0"
    by simp
  have batch: "(2::int) > 1" by simp
  note T = batch_sets_passes [OF crowded_getOptions crowded_detect crowded_batch_updateTabCount
      crowded_batch_getSessionState ps batch refl, of "new_tab 0"]
  have nf: "\<not> next_fault ?w5"
    using displayAlert_fn_faults [of "crowded batch_seen" crowded_options "''total''"] by simp
  note after = T [THEN conjunct2, THEN conjunct2, THEN conjunct2, THEN mp, OF nf]
  have "tabs (handleTabCreated (new_tab 0) (crowded (seen 1 0))) = tabs (crowded (seen 1 0))"
    using T [THEN conjunct2, THEN conjunct1] .
  then have same: "tabs (handleTabCreated (new_tab 0) (crowded (seen 1 0))) = [new_tab 0, new_tab 1, new_tab 2]"
    by (simp add: crowded_def browser_def)
  have stored: "stored_passes ?s = Some 1" using after [THEN conjunct1] by simp
  have hyp: "\<forall>(b, a)\<in>set (creation_events ?es ?s). faults b = [] \<and> limit_exceeded b"
    by simp
  note later = after [THEN conjunct2, THEN spec, of ?es, THEN mp, OF hyp]
  have e0: "case creation_events ?es ?s ! 0 of (b, a) \<Rightarrow> silent b a \<and> stored_passes (session a) = Some 0"
    using later [rule_format, of 0] by (simp split: prod.splits)
  have e1: "case creation_events ?es ?s ! 1 of (b, a) \<Rightarrow> \<exists>msg. notifications a = notifications b @ [msg]"
    using later [rule_format, of 1]
    by (simp add: crowded_getOptions crowded_options_def DEFAULT_OPTIONS_def split: prod.splits)
  show ?thesis using stored same e0 e1 by blast
qed

lemma updateTabCount_failure:
  "next_fault v \<or> next_fault (v\<lparr>faults := tl (faults v)\<rparr>) \<Longrightarrow> fst (updateTabCount v) = 0"
  by (auto simp: updateTabCount_def chrome_tabs_query_all getSessionState_eq SESSION_DEFAULTS_def Let_def)

lemma updateTabCount_write_failure:
  "fst (updateTabCount (u\<lparr>faults := False # False # True # fs\<rparr>)) =
     fst (updateTabCount (u\<lparr>faults := False # False # False # fs\<rparr>)) \<and>
   session (snd (updateTabCount (u\<lparr>faults := False # False # True # fs\<rparr>))) = session u"
  by (simp add: updateTabCount_def chrome_tabs_query_all getSessionState_eq updateSessionState_eq
      next_fault_def console_error_def Let_def)

text \<open>
  C10, as stated, fails in two ways.  A rejected session-store write is swallowed by
  \<open>updateSessionState\<close>, so \<open>updateTabCount\<close> still returns the delta it computed: with 2
  tabs seen before and 3 tabs now, it returns 1 although its third call, the write, rejects, and
  when the same write is the seventh call of a creation event, the tab is closed.  And when the
  tab query rejects while passes are pending, the handler takes a pass (2 becomes 1) instead of
  falling through the delta branches.
\<close>

theorem write_failure_counterexample:
  "fst (updateTabCount ((crowded (seen 2 0))\<lparr>faults := [False, False, True]\<rparr>)) = 1 \<and>
   tabs (handleTabCreated (new_tab 2)
          ((crowded (seen 2 0))\<lparr>faults := [False, False, False, False, False, False, True]\<rparr>)) =
     [new_tab 0, new_tab 1] \<and>
   stored_passes (session (handleTabCreated (new_tab 2)
          ((crowded (seen 2 2))\<lparr>faults := [False, False, False, False, True]\<rparr>))) = Some 1"
  by code_simp

text \<open>
  C10, amended.  Whenever the tab query of \<open>updateTabCount\<close> rejects (the function's own
  \<open>catch\<close>), or the query succeeds and the session-store read rejects (\<open>getSessionState\<close>
  falls back to the defaults, which make it a first observation), \<open>updateTabCount\<close> returns 0.
  When that happens in a creation event whose limit detection yielded a scope, no tab is closed
  or moved: with passes pending the handler only takes one pass, and otherwise it ends right
  after the alert step, with none of the delta branches taken.  When the query and the read
  succeed and the write rejects, \<open>updateTabCount\<close> returns the delta it returns when the write
  succeeds, and leaves the session store as it was.
\<close>

theorem query_or_read_failure_gives_zero:
  assumes s1: "getOptions w = (opts, w1)"
    and s2: "detectTabLimitExceeded opts w1 = (Inr (Some place), w2)"
    and s3: "updateTabCount w2 = (created, w3)"
    and s4: "getSessionState w3 = (state, w4)"
    and fail: "next_fault w2 \<or> next_fault (w2\<lparr>faults := tl (faults w2)\<rparr>)"
    and failv: "next_fault v \<or> next_fault (v\<lparr>faults := tl (faults v)\<rparr>)"
  shows "fst (updateTabCount v) = 0 \<and>
         fst (updateTabCount w2) = 0 \<and>
         tabs (handleTabCreated t w) = tabs w \<and>
         focusedWindow (handleTabCreated t w) = focusedWindow w \<and>
         (passes state > 0 \<longrightarrow>
            handleTabCreated t w = updateSessionState (passes_update (passes state - 1)) w4) \<and>
         (\<not> passes state > 0 \<longrightarrow>
            handleTabCreated_try t w = (Inr (), snd (displayAlert_fn opts place w4))) \<and>
         fst (updateTabCount (u\<lparr>faults := False # False # True # fs\<rparr>)) =
           fst (updateTabCount (u\<lparr>faults := False # False # False # fs\<rparr>)) \<and>
         session (snd (updateTabCount (u\<lparr>faults := False # False # True # fs\<rparr>))) = session u"
proof -
  have zero: "fst (updateTabCount w2) = 0" using fail by (rule updateTabCount_failure)
  then have c0: "created = 0" using s3 by simp
  have k4: "keeps w w4" using s1 s2 s3 s4 by (rule before_passes_check)
  have tag: "place = ''window'' \<or> place = ''total''" using s2 by (rule detectTabLimitExceeded_tag)
  obtain shown where "fst (displayAlert_fn opts place w4) = Inr shown"
    using displayAlert_fn_ok [OF tag] by blast
  then have d: "displayAlert_fn opts place w4 = (Inr shown, snd (displayAlert_fn opts place w4))"
    by (cases "displayAlert_fn opts place w4") simp
  have pending: "handleTabCreated t w = updateSessionState (passes_update (passes state - 1)) w4"
    if "passes state > 0"
    using passes_branch [OF s1 s2 s3 s4 that] .
  have through: "handleTabCreated_try t w = (Inr (), snd (displayAlert_fn opts place w4))"
    if "\<not> passes state > 0"
    using no_passes_branch [OF s1 s2 s3 s4 that d, of t] c0 by simp
  have same: "tabs (handleTabCreated t w) = tabs w \<and> focusedWindow (handleTabCreated t w) = focusedWindow w"
  proof (cases "passes state > 0")
    case True
    show ?thesis using k4 by (simp add: pending [OF True] updateSessionState_frame keeps_def)
  next
    case False
    show ?thesis
      using k4 through [OF False] by (simp add: handleTabCreated_def displayAlert_fn_frame keeps_def)
  qed
  show ?thesis
    using updateTabCount_failure [OF failv] zero same pending through
      updateTabCount_write_failure [of fs u]
    by blast
qed

theorem query_or_read_failure_gives_zero_witness:
  "fst (updateTabCount ((crowded (seen 2 2))\<lparr>faults := [False, True]\<rparr>)) = 0 \<and>
   fst (updateTabCount ((crowded (seen 2 2))\<lparr>faults := [True]\<rparr>)) = 0 \<and>
   tabs (handleTabCreated (new_tab 2) ((crowded (seen 2 2))\<lparr>faults := [False, False, False, False, True]\<rparr>)) =
     [new_tab 0, new_tab 1, new_tab 2] \<and>
   focusedWindow (handleTabCreated (new_tab 2)
     ((crowded (seen 2 2))\<lparr>faults := [False, False, False, False, True]\<rparr>)) = 0 \<and>
   fst (updateTabCount ((crowded (seen 2 2))\<lparr>faults := [False, False, True]\<rparr>)) =
     fst (updateTabCount ((crowded (seen 2 2))\<lparr>faults := [False, False, False]\<rparr>))"
proof -
  let ?w = "(crowded (seen 2 2))\<lparr>faults := [False, False, False, False, True]\<rparr>"
  let ?w1 = "(crowded (seen 2 2))\<lparr>faults := [False, False, True]\<rparr>"
  let ?w2 = "(crowded (seen 2 2))\<lparr>faults := [True]\<rparr>"
  let ?v = "(crowded (seen 2 2))\<lparr>faults := [False, True]\<rparr>"
  let ?w3 = "snd (updateTabCount ?w2)"
  have s1: "getOptions ?w = (crowded_options, ?w1)"
    by (simp add: getOptions_eq crowded_def browser_def next_fault_def empty_sync_def merge_options_def
        crowded_options_def DEFAULT_OPTIONS_def)
  have s2: "detectTabLimitExceeded crowded_options ?w1 = (Inr (Some ''total''), ?w2)"
    by (simp add: detectTabLimitExceeded_def promise_all_def detectTooManyTabsInWindow_def
        detectTooManyTabsInTotal_def tabQuery_eq crowded_def browser_def next_fault_def
        crowded_options_def DEFAULT_OPTIONS_def falsy_def in_current_window_def no_params_def
        tab_matches_def new_tab_def)
  have fail: "next_fault ?w2 \<or> next_fault (?w2\<lparr>faults := tl (faults ?w2)\<rparr>)"
    by (simp add: next_fault_def)
  have failv: "next_fault ?v \<or> next_fault (?v\<lparr>faults := tl (faults ?v)\<rparr>)"
    by (simp add: next_fault_def)
  have s3: "updateTabCount ?w2 = (fst (updateTabCount ?w2), ?w3)" by simp
  have s4: "getSessionState ?w3 = (fst (getSessionState ?w3), snd (getSessionState ?w3))" by simp
  note T = query_or_read_failure_gives_zero [OF s1 s2 s3 s4 fail failv,
      of "new_tab 2" "[]" "crowded (seen 2 2)"]
  have a: "fst (updateTabCount ?v) = 0" using T by (rule conjunct1)
  have b: "fst (updateTabCount ?w2) = 0" using T [THEN conjunct2] by (rule conjunct1)
  have "tabs (handleTabCreated (new_tab 2) ?w) = tabs ?w"
    using T [THEN conjunct2, THEN conjunct2] by (rule conjunct1)
  then have c: "tabs (handleTabCreated (new_tab 2) ?w) = [new_tab 0, new_tab 1, new_tab 2]"
    by (simp add: crowded_def browser_def)
  have "focusedWindow (handleTabCreated (new_tab 2) ?w) = focusedWindow ?w"
    using T [THEN conjunct2, THEN conjunct2, THEN conjunct2] by (rule conjunct1)
  then have d: "focusedWindow (handleTabCreated (new_tab 2) ?w) = 0"
    by (simp add: crowded_def browser_def)
  have "fst (updateTabCount ((crowded (seen 2 2))\<lparr>faults := False # False # True # []\<rparr>)) =
      fst (updateTabCount ((crowded (seen 2 2))\<lparr>faults := False # False # False # []\<rparr>))"
    using T [THEN conjunct2, THEN conjunct2, THEN conjunct2, THEN conjunct2, THEN conjunct2,
        THEN conjunct2] by (rule conjunct1)
  then have e: "fst (updateTabCount ((crowded (seen 2 2))\<lparr>faults := [False, False, True]\<rparr>)) =
      fst (updateTabCount ((crowded (seen 2 2))\<lparr>faults := [False, False, False]\<rparr>))"
    by simp
  show ?thesis using a b c d e by (intro conjI)
qed

section \<open>Tab exceed handling\<close>

lemma fold_max_ge: "a \<le> fold max xs (a::nat)"
  by (induction xs arbitrary: a) (auto intro: order_trans [OF max.cobounded2])

lemma fold_max_mem: "x \<in> set xs \<Longrightarrow> x \<le> fold max xs (a::nat)"
proof (induction xs arbitrary: a)
  case Nil
  then show ?case by simp
next
  case (Cons y ys)
  show ?case
  proof (cases "x = y")
    case True
    have "y \<le> max y a" by simp
    also have "\<dots> \<le> fold max ys (max y a)" by (rule fold_max_ge)
    finally show ?thesis using True by simp
  next
    case False
    then show ?thesis using Cons by simp
  qed
qed

lemma fresh_window_new:
  "fresh_window w \<noteq> focusedWindow w \<and> fresh_window w \<notin> tab_windowId ` set (tabs w)"
proof -
  have "focusedWindow w < fresh_window w"
    using fold_max_ge [of "focusedWindow w" "map tab_windowId (tabs w)"] by (simp add: fresh_window_def)
  moreover have "\<forall>x\<in>set (tabs w). tab_windowId x < fresh_window w"
    using fold_max_mem [of _ "map tab_windowId (tabs w)" "focusedWindow w"]
    by (auto simp: fresh_window_def less_Suc_eq_le)
  ultimately show ?thesis by auto
qed

text \<open>
  C7.  When the call does not reject and the tab exists, \<open>handleExceedTabs\<close> moves the tab into
  a new, focused window if the scope is \<open>window\<close> and \<open>exceedTabNewWindow\<close> is set, and
  removes the tab in every other case; the tab is still open afterwards exactly in the first case.
\<close>

theorem handleExceedTabs_action:
  assumes ok: "\<not> next_fault w" and present: "tab_id t \<in> tab_id ` set (tabs w)"
  shows "(place = ''window'' \<and> exceedTabNewWindow opts \<longrightarrow>
            tabs (handleExceedTabs t opts place w) =
              map (\<lambda>x. if tab_id x = tab_id t then x\<lparr>tab_windowId := fresh_window w\<rparr> else x) (tabs w) \<and>
            focusedWindow (handleExceedTabs t opts place w) = fresh_window w \<and>
            fresh_window w \<noteq> focusedWindow w \<and> fresh_window w \<notin> tab_windowId ` set (tabs w)) \<and>
         (\<not> (place = ''window'' \<and> exceedTabNewWindow opts) \<longrightarrow>
            tabs (handleExceedTabs t opts place w) = filter (\<lambda>x. tab_id x \<noteq> tab_id t) (tabs w) \<and>
            focusedWindow (handleExceedTabs t opts place w) = focusedWindow w) \<and>
         (tab_id t \<in> tab_id ` set (tabs (handleExceedTabs t opts place w))) =
            (place = ''window'' \<and> exceedTabNewWindow opts)"
proof (cases "place = ''window'' \<and> exceedTabNewWindow opts")
  case True
  let ?moved = "map (\<lambda>x. if tab_id x = tab_id t then x\<lparr>tab_windowId := fresh_window w\<rparr> else x) (tabs w)"
  have run: "handleExceedTabs t opts place w =
      w\<lparr>faults := tl (faults w), tabs := ?moved, focusedWindow := fresh_window w\<rparr>"
    using True ok present
    by (simp add: handleExceedTabs_def chrome_windows_create_def take_fault_eq fresh_window_def)
  have r1: "tabs (handleExceedTabs t opts place w) = ?moved" by (simp add: run)
  have r2: "focusedWindow (handleExceedTabs t opts place w) = fresh_window w" by (simp add: run)
  have "map tab_id ?moved = map tab_id (tabs w)"
    by (induction "tabs w") auto
  then have "tab_id ` set ?moved = tab_id ` set (tabs w)"
    by (metis set_map)
  then have r3: "tab_id t \<in> tab_id ` set (tabs (handleExceedTabs t opts place w))"
    using present unfolding r1 by simp
  show ?thesis using True r1 r2 r3 fresh_window_new [of w] by blast
next
  case False
  have run: "handleExceedTabs t opts place w =
      w\<lparr>faults := tl (faults w), tabs := filter (\<lambda>x. tab_id x \<noteq> tab_id t) (tabs w)\<rparr>"
    using False ok present
    by (auto simp: handleExceedTabs_def chrome_tabs_remove_def take_fault_eq)
  have r1: "tabs (handleExceedTabs t opts place w) = filter (\<lambda>x. tab_id x \<noteq> tab_id t) (tabs w)"
    by (simp add: run)
  have r2: "focusedWindow (handleExceedTabs t opts place w) = focusedWindow w" by (simp add: run)
  have r3: "tab_id t \<notin> tab_id ` set (tabs (handleExceedTabs t opts place w))"
    unfolding r1 by auto
  show ?thesis using False r1 r2 r3 by blast
qed

theorem handleExceedTabs_action_witness:
  "tabs (handleExceedTabs (new_tab 1) (DEFAULT_OPTIONS\<lparr>exceedTabNewWindow := True\<rparr>) ''window''
          (browser [new_tab 0, new_tab 1])) = [new_tab 0, (new_tab 1)\<lparr>tab_windowId := 1\<rparr>] \<and>
   focusedWindow (handleExceedTabs (new_tab 1) (DEFAULT_OPTIONS\<lparr>exceedTabNewWindow := True\<rparr>) ''window''
          (browser [new_tab 0, new_tab 1])) = 1 \<and>
   tabs (handleExceedTabs (new_tab 1) (DEFAULT_OPTIONS\<lparr>exceedTabNewWindow := True\<rparr>) ''total''
          (browser [new_tab 0, new_tab 1])) = [new_tab 0]"
proof -
  let ?w = "browser [new_tab 0, new_tab 1]"
  let ?o = "DEFAULT_OPTIONS\<lparr>exceedTabNewWindow := True\<rparr>"
  have ok: "\<not> next_fault ?w" by (simp add: next_fault_def browser_def)
  have present: "tab_id (new_tab 1) \<in> tab_id ` set (tabs ?w)" by (simp add: browser_def)
  have fw: "fresh_window ?w = 1" by (simp add: fresh_window_def browser_def new_tab_def)
  have a: "tabs (handleExceedTabs (new_tab 1) ?o ''window'' ?w) =
      map (\<lambda>x. if tab_id x = tab_id (new_tab 1) then x\<lparr>tab_windowId := fresh_window ?w\<rparr> else x) (tabs ?w) \<and>
      focusedWindow (handleExceedTabs (new_tab 1) ?o ''window'' ?w) = fresh_window ?w"
    using handleExceedTabs_action [OF ok present, of "''window''" ?o] by (simp add: DEFAULT_OPTIONS_def)
  have b: "tabs (handleExceedTabs (new_tab 1) ?o ''total'' ?w) =
      filter (\<lambda>x. tab_id x \<noteq> tab_id (new_tab 1)) (tabs ?w)"
    using handleExceedTabs_action [OF ok present, of "''total''" ?o] by simp
  show ?thesis using a b unfolding fw by (simp add: browser_def new_tab_def)
qed

section \<open>The pass counter\<close>

lemma updateSessionState_passes_cases:
  "stored_passes (session (updateSessionState (passes_update p) w)) =
     (if next_fault w then stored_passes (session w) else Some p)"
  by (simp add: updateSessionState_eq passes_update_def no_updates_def merge_session_def console_error_def)

lemma handleUpdate_passes: "stored_passes (session (handleUpdate w)) = stored_passes (session w)"
  using handleUpdate_keeps [of w] by (simp add: keeps_def)

lemma handleInstalled_passes: "stored_passes (session (handleInstalled w)) = stored_passes (session w)"
  by (simp add: handleInstalled_def chrome_storage_sync_set_defaultOptions_def take_fault_eq
      handleUpdate_passes console_error_def split: bool.splits)

lemma handleTabCreated_passes_write:
  "stored_passes (session (handleTabCreated t w)) = stored_passes (session w) \<or>
   (\<exists>p. 0 \<le> p \<and> stored_passes (session (handleTabCreated t w)) = Some p)"
proof -
  obtain opts w1 where s1: "getOptions w = (opts, w1)" by (cases "getOptions w")
  obtain r w2 where s2: "detectTabLimitExceeded opts w1 = (r, w2)" by (cases "detectTabLimitExceeded opts w1")
  have k1: "keeps w w1" using getOptions_keeps [of w] s1 by simp
  have k2: "keeps w1 w2" using detectTabLimitExceeded_keeps [of w1 opts] s2 by simp
  have k: "stored_passes (session w2) = stored_passes (session w)" using k1 k2 by (simp add: keeps_def)
  show ?thesis
  proof (cases r)
    case (Inl e)
    then show ?thesis using s1 s2 k
      by (simp add: handleTabCreated_def handleTabCreated_try_def console_error_def)
  next
    case (Inr found)
    show ?thesis
    proof (cases found)
      case None
      then show ?thesis using s1 s2 k Inr
        by (simp add: handleTabCreated_def handleTabCreated_try_def handleUpdate_passes)
    next
      case (Some place)
      have d: "detectTabLimitExceeded opts w1 = (Inr (Some place), w2)" using s2 Inr Some by simp
      have tag: "place = ''window'' \<or> place = ''total''" using d by (rule detectTabLimitExceeded_tag)
      obtain created w3 where s3: "updateTabCount w2 = (created, w3)" by (cases "updateTabCount w2")
      obtain state w4 where s4: "getSessionState w3 = (state, w4)" by (cases "getSessionState w3")
      have k4: "stored_passes (session w4) = stored_passes (session w)"
        using before_passes_check [OF s1 d s3 s4] by (simp add: keeps_def)
      show ?thesis
      proof (cases "passes state > 0")
        case True
        show ?thesis
          using True k4
          by (simp add: passes_branch [OF s1 d s3 s4 True] updateSessionState_passes_cases)
      next
        case False
        obtain shown where "fst (displayAlert_fn opts place w4) = Inr shown"
          using displayAlert_fn_ok [OF tag] by blast
        then have a: "displayAlert_fn opts place w4 = (Inr shown, snd (displayAlert_fn opts place w4))"
          by (cases "displayAlert_fn opts place w4") simp
        show ?thesis
          using k4 no_passes_branch [OF s1 d s3 s4 False a, of t]
          by (simp add: handleTabCreated_def handleUpdate_passes handleExceedTabs_frame
              displayAlert_fn_frame updateSessionState_passes_cases)
      qed
    qed
  qed
qed

lemma reachable_passes: "reachable w \<Longrightarrow> \<forall>p. stored_passes (session w) = Some p \<longrightarrow> 0 \<le> p"
proof (induction rule: reachable.induct)
  case (started w)
  then show ?case by (simp add: no_updates_def)
next
  case (outside w w')
  then show ?case by simp
next
  case (tab_created w t)
  then show ?case using handleTabCreated_passes_write [of t w] by auto
next
  case (updated w)
  then show ?case by (simp add: handleUpdate_passes)
next
  case (installed w)
  then show ?case by (simp add: handleInstalled_passes)
qed

text \<open>
  C9.  In every reachable state the stored \<open>passes\<close>, when present, is not negative, and so
  is the value that \<open>getSessionState\<close> reads; and each run of \<open>handleTabCreated\<close> either
  leaves the stored \<open>passes\<close> as it was or stores a value that is not negative.
\<close>

theorem passes_never_negative:
  assumes "reachable w"
  shows "(\<forall>p. stored_passes (session w) = Some p \<longrightarrow> 0 \<le> p) \<and>
         0 \<le> passes (fst (getSessionState w)) \<and>
         (stored_passes (session (handleTabCreated t w)) = stored_passes (session w) \<or>
          (\<exists>p. 0 \<le> p \<and> stored_passes (session (handleTabCreated t w)) = Some p))"
proof -
  have inv: "\<forall>p. stored_passes (session w) = Some p \<longrightarrow> 0 \<le> p"
    using assms by (rule reachable_passes)
  then have "0 \<le> passes (fst (getSessionState w))"
    by (simp add: getSessionState_eq with_defaults_def SESSION_DEFAULTS_def split: option.splits)
  then show ?thesis using inv handleTabCreated_passes_write [of t w] by blast
qed

theorem passes_never_negative_witness:
  "reachable (handleTabCreated (new_tab 2)
      (handleTabCreated (new_tab 1) (crowded (session (handleUpdate (browser [new_tab 0])))))) \<and>
   stored_passes (session (handleTabCreated (new_tab 1)
      (crowded (session (handleUpdate (browser [new_tab 0])))))) = Some 1 \<and>
   stored_passes (session (handleTabCreated (new_tab 2)
      (handleTabCreated (new_tab 1) (crowded (session (handleUpdate (browser [new_tab 0]))))))) = Some 0 \<and>
   0 \<le> passes (fst (getSessionState (handleTabCreated (new_tab 2)
      (handleTabCreated (new_tab 1) (crowded (session (handleUpdate (browser [new_tab 0]))))))))"
proof -
  let ?w1 = "handleUpdate (browser [new_tab 0])"
  let ?w2 = "crowded (session ?w1)"
  let ?w3 = "handleTabCreated (new_tab 1) ?w2"
  let ?w4 = "handleTabCreated (new_tab 2) ?w3"
  have "reachable (browser [new_tab 0])"
    by (rule reachable.started) (simp add: browser_def)
  then have "reachable ?w1" by (rule reachable.updated)
  then have "reachable ?w2" by (rule reachable.outside) (simp add: crowded_def)
  then have r: "reachable ?w4" by (intro reachable.tab_created)
  have a: "stored_passes (session ?w3) = Some 1" by code_simp
  have b: "stored_passes (session ?w4) = Some 0" by code_simp
  show ?thesis
    using r a b passes_never_negative [OF r, of "new_tab 0", THEN conjunct2, THEN conjunct1]
    by (intro conjI)
qed

section \<open>Alert rendering\<close>






















end
